theory Spec2Isabelle
  imports Complex_Main
begin

section \<open>Data model (src/types.ts)\<close>

text \<open>
  A JavaScript \<open>number\<close> is modelled as an exact rational: the claims are about the
  arithmetic the handlers perform, not about binary rounding, NaN or infinities.
  Optional members (\<open>price?\<close>, \<open>expiryDate?\<close>, \<open>image?\<close>, a nullable \<open>changeType\<close>)
  are \<open>option\<close> values. Record fields carry a short prefix because several interfaces
  share the member names \<open>id\<close>, \<open>name\<close>, \<open>quantity\<close> and \<open>price\<close>.
\<close>

record InventoryItem =
  i_id :: string
  i_name :: string
  i_quantity :: rat
  i_unit :: string
  i_price :: rat
  i_expiryDate :: "string option"
  i_image :: "string option"

record SaleItem =
  s_name :: string
  s_quantity :: rat
  s_price :: "rat option"

record SaleRecord =
  sr_id :: string
  sr_items :: "SaleItem list"
  sr_totalAmount :: rat
  sr_date :: string

record ExpenseRecord =
  e_id :: string
  e_description :: string
  e_amount :: rat
  e_date :: string

text \<open>
  One line of the \<open>data.items\<close> array of an action, as the response schema of
  geminiService.ts declares it: name, quantity, nullable changeType, nullable price.
\<close>

record PayloadItem =
  p_name :: string
  p_quantity :: rat
  p_changeType :: "string option"
  p_price :: "rat option"

text \<open>
  The \<open>data\<close> argument of \<open>handleAiAction\<close> is typed \<open>any\<close> and nullable in the schema:
  \<open>None\<close> is a null or undefined \<open>data\<close>, and \<open>d_items = None\<close> is an object without
  an \<open>items\<close> member.
\<close>

record Payload =
  d_items :: "PayloadItem list option"

datatype Tab = Chat | Dashboard | Calculator

record AppState =
  inventory :: "InventoryItem list"
  sales :: "SaleRecord list"
  expenses :: "ExpenseRecord list"
  cart :: "SaleItem list"
  activeTab :: Tab

text \<open>
  What the handlers take from the platform: \<open>Date.now().toString()\<close>,
  \<open>new Date().toISOString()\<close>, \<open>daysAgo\<close>, \<open>Math.random()\<close> (printed, one draw per
  payload line), and two things that are not code of this repository:
  \<^item> \<open>toLowerCase\<close> is JavaScript's \<open>String.prototype.toLowerCase\<close>, which lower-cases
    every cased letter of Unicode. It is taken as it is given: every general theorem below
    holds for whatever function stands here.
  \<^item> \<open>updaterAtCall\<close> says when React runs the function passed to \<open>setInventory\<close>:
    at the call, which it does when the component has no pending work, or only at the next
    render. The updater writes the locals \<open>total\<close> and \<open>totalOutcome\<close>, and the handler
    reads them right after \<open>setInventory\<close> returns, so the two schedules differ.
\<close>

record Env =
  nowMs :: string
  nowIso :: string
  daysAgo :: "int \<Rightarrow> string"
  mathRandom :: "nat \<Rightarrow> string"
  toLowerCase :: "string \<Rightarrow> string"
  updaterAtCall :: bool

text \<open>
  A \<open>TypeError\<close> is thrown by the handler itself; \<open>TypeErrorInRender\<close> is thrown by a
  state updater, which React lets surface in the render that follows the handler (an
  exception raised by an updater that runs at the call is caught and raised again there).
\<close>

datatype error = TypeError | TypeErrorInRender

section \<open>JavaScript primitives used by the handlers\<close>

text \<open>
  What \<open>toLowerCase\<close> does to a string of ASCII characters: the letters A to Z become a to
  z, everything else stays. It stands for the built-in in the examples, whose strings are
  all ASCII.
\<close>

definition asciiLowerChar :: "char \<Rightarrow> char" where
  "asciiLowerChar c =
     (let n = (of_char c :: nat) in if 65 \<le> n \<and> n \<le> 90 then char_of (n + 32) else c)"

definition asciiLowerCase :: "string \<Rightarrow> string" where
  "asciiLowerCase s = map asciiLowerChar s"

fun startsWith :: "string \<Rightarrow> string \<Rightarrow> bool" where
  "startsWith s [] = True"
| "startsWith [] (c # t) = False"
| "startsWith (a # s) (c # t) = (a = c \<and> startsWith s t)"

text \<open>\<open>s.includes(t)\<close>, named includesStr here: \<open>t\<close> occurs in \<open>s\<close> at some position.\<close>

fun includesStr :: "string \<Rightarrow> string \<Rightarrow> bool" where
  "includesStr [] t = (t = [])"
| "includesStr (a # s) t = (startsWith (a # s) t \<or> includesStr s t)"

text \<open>\<open>Array.prototype.findIndex\<close>, with \<open>None\<close> for the result \<open>-1\<close>.\<close>

fun findIndex :: "('a \<Rightarrow> bool) \<Rightarrow> 'a list \<Rightarrow> nat option" where
  "findIndex P [] = None"
| "findIndex P (x # xs) = (if P x then Some 0 else map_option Suc (findIndex P xs))"

text \<open>
  \<open>p || d\<close> on an optional number: \<open>undefined\<close>, \<open>null\<close> and \<open>0\<close> are falsy.
\<close>

definition jsOr :: "rat option \<Rightarrow> rat \<Rightarrow> rat" where
  "jsOr p d = (case p of None \<Rightarrow> d | Some v \<Rightarrow> if v = 0 then d else v)"

definition falsy :: "rat option \<Rightarrow> bool" where
  "falsy p = (case p of None \<Rightarrow> True | Some v \<Rightarrow> v = 0)"

text \<open>\<open>Math.round\<close>: the nearest integer, halves rounded up.\<close>

definition mathRound :: "rat \<Rightarrow> rat" where
  "mathRound x = of_int \<lfloor>x + 1 / 2\<rfloor>"

text \<open>Decimal printing of an array length inside a template string.\<close>

fun showNat :: "nat \<Rightarrow> string" where
  "showNat n =
     (if n < 10 then [char_of (48 + n)]
      else showNat (n div 10) @ [char_of (48 + n mod 10)])"

declare showNat.simps [simp del]

section \<open>Initial inventory (src/App.tsx, lines 18 to 82)\<close>

definition INITIAL_INVENTORY :: "Env \<Rightarrow> InventoryItem list" where
  "INITIAL_INVENTORY env =
    [\<lparr>i_id = ''1'', i_name = ''Marie Gold Biscuits'', i_quantity = 45, i_unit = ''packet'',
      i_price = 10, i_expiryDate = Some (daysAgo env (-90)),
      i_image = Some ''https://images.unsplash.com/photo-1558961363-fa8fdf82db35?w=300&q=80''\<rparr>,
     \<lparr>i_id = ''2'', i_name = ''Maggi Noodles'', i_quantity = 8, i_unit = ''packet'',
      i_price = 14, i_expiryDate = Some (daysAgo env (-120)),
      i_image = Some ''https://images.unsplash.com/photo-1612929633738-8fe44f7ec841?w=300&q=80''\<rparr>,
     \<lparr>i_id = ''3'', i_name = ''Tata Salt'', i_quantity = 20, i_unit = ''kg'',
      i_price = 25, i_expiryDate = Some (daysAgo env (-365)),
      i_image = Some ''https://images.unsplash.com/photo-1518110925495-5fe26535db2f?w=300&q=80''\<rparr>,
     \<lparr>i_id = ''4'', i_name = ''Red Label Tea'', i_quantity = 4, i_unit = ''box'',
      i_price = 120, i_expiryDate = Some (daysAgo env (-500)),
      i_image = Some ''https://images.unsplash.com/photo-1594631252845-29fc4cc8cde9?w=300&q=80''\<rparr>,
     \<lparr>i_id = ''5'', i_name = ''Surf Excel'', i_quantity = 30, i_unit = ''sachet'',
      i_price = 5, i_expiryDate = Some (daysAgo env (-730)),
      i_image = Some ''https://images.unsplash.com/photo-1527015098135-e5f8f3b7d722?w=300&q=80''\<rparr>,
     \<lparr>i_id = ''6'', i_name = ''Amul Milk'', i_quantity = 5, i_unit = ''packet'',
      i_price = 28, i_expiryDate = Some (daysAgo env (-1)),
      i_image = Some ''https://images.unsplash.com/photo-1550583724-b2692b85b150?w=300&q=80''\<rparr>,
     \<lparr>i_id = ''7'', i_name = ''Bread'', i_quantity = 5, i_unit = ''loaf'',
      i_price = 40, i_expiryDate = Some (daysAgo env (-2)),
      i_image = Some ''https://images.unsplash.com/photo-1509440159596-0249088772ff?w=300&q=80''\<rparr>]"

section \<open>Name resolution\<close>

text \<open>
  The two predicates the handlers pass to \<open>findIndex\<close> and \<open>find\<close>. The inventory update
  (line 249 of App.tsx) accepts a containment in either direction; the sale recorder
  (line 183), \<open>processCartItems\<close> (line 233) and the voice path of the bill calculator
  accept only an inventory name that contains the query.
\<close>

definition matchesEither :: "Env \<Rightarrow> string \<Rightarrow> InventoryItem \<Rightarrow> bool" where
  "matchesEither env q i =
     (includesStr (toLowerCase env (i_name i)) (toLowerCase env q) \<or>
      includesStr (toLowerCase env q) (toLowerCase env (i_name i)))"

definition matchesName :: "Env \<Rightarrow> string \<Rightarrow> InventoryItem \<Rightarrow> bool" where
  "matchesName env q i = includesStr (toLowerCase env (i_name i)) (toLowerCase env q)"

section \<open>Sale recording (src/App.tsx, lines 178 to 227)\<close>

text \<open>
  The in-place writes to the elements of the copied array become list updates. The line
  objects of \<open>itemsToSell\<close> are shared with the sale record, so a price the updater fills
  in shows in the record whenever the updater runs.
\<close>

text \<open>
  The body of the \<open>forEach\<close> of \<open>updateInventoryAndRecordSale\<close>: it returns the line
  (whose missing price the body fills in), the inventory and the running total (the
  local \<open>total\<close>, written total0).
\<close>

definition sellStep ::
  "Env \<Rightarrow> SaleItem \<Rightarrow> InventoryItem list \<Rightarrow> rat \<Rightarrow> SaleItem \<times> InventoryItem list \<times> rat" where
  "sellStep env soldItem newInv total0 =
     (case findIndex (matchesName env (s_name soldItem)) newInv of
        Some idx \<Rightarrow>
          (let inv1 = newInv[idx := (newInv ! idx)
                 \<lparr>i_quantity := max 0 (i_quantity (newInv ! idx) - s_quantity soldItem)\<rparr>];
               sold1 = (if falsy (s_price soldItem)
                        then soldItem\<lparr>s_price := Some (i_price (inv1 ! idx))\<rparr>
                        else soldItem)
           in (sold1, inv1, total0 + jsOr (s_price sold1) 0 * s_quantity sold1))
      | None \<Rightarrow> (soldItem, newInv, total0))"

fun sellLoop ::
  "Env \<Rightarrow> SaleItem list \<Rightarrow> InventoryItem list \<Rightarrow> rat
     \<Rightarrow> SaleItem list \<times> InventoryItem list \<times> rat" where
  "sellLoop env [] newInv total0 = ([], newInv, total0)"
| "sellLoop env (soldItem # rest) newInv total0 =
     (case sellStep env soldItem newInv total0 of
        (sold1, inv1, total1) \<Rightarrow>
          (case sellLoop env rest inv1 total1 of
             (rest1, inv2, total2) \<Rightarrow> (sold1 # rest1, inv2, total2)))"

text \<open>
  The state after the handler and the render that follows it. When the updater runs at
  the call, line 197 sees the total and the prices the loop left; when it runs later,
  line 197 sees \<open>total = 0\<close> and the lines as they were passed, and falls back to the sum
  of their own prices. The inventory and the lines of the record are those the updater
  leaves in either case.
\<close>

definition updateInventoryAndRecordSale :: "Env \<Rightarrow> SaleItem list \<Rightarrow> AppState \<Rightarrow> AppState" where
  "updateInventoryAndRecordSale env itemsToSell s =
     (case sellLoop env itemsToSell (inventory s) 0 of
        (items1, newInv, totalRun) \<Rightarrow>
          (let total0 = (if updaterAtCall env then totalRun else 0);
               seen = (if updaterAtCall env then items1 else itemsToSell);
               newSale = \<lparr>sr_id = nowMs env, sr_items = items1,
                 sr_totalAmount =
                   (if total0 \<noteq> 0 then total0
                    else foldl (\<lambda>a b. a + jsOr (s_price b) 0 * s_quantity b) 0 seen),
                 sr_date = nowIso env\<rparr>
           in s\<lparr>inventory := newInv, sales := sales s @ [newSale]\<rparr>))"

definition handleSaleComplete :: "Env \<Rightarrow> SaleItem list \<Rightarrow> AppState \<Rightarrow> AppState" where
  "handleSaleComplete env items0 s = (updateInventoryAndRecordSale env items0 s)\<lparr>cart := []\<rparr>"

section \<open>Quick restock and new products (src/App.tsx, lines 202 to 222)\<close>

definition handleQuickRestock :: "Env \<Rightarrow> string \<Rightarrow> AppState \<Rightarrow> AppState" where
  "handleQuickRestock env itemName s =
     s\<lparr>inventory :=
         map (\<lambda>item. if i_name item = itemName
                      then item\<lparr>i_quantity := i_quantity item + 10\<rparr> else item) (inventory s),
       expenses := expenses s @
         map (\<lambda>item. \<lparr>e_id = nowMs env, e_description = ''Quick Restock: '' @ i_name item,
                       e_amount = (i_price item * (8 / 10)) * 10, e_date = nowIso env\<rparr>)
           (filter (\<lambda>item. i_name item = itemName) (inventory s))\<rparr>"

definition handleAddNewItem :: "InventoryItem \<Rightarrow> AppState \<Rightarrow> AppState" where
  "handleAddNewItem newItem s = s\<lparr>inventory := newItem # inventory s\<rparr>"

section \<open>Cart price resolution and merge (src/App.tsx, lines 229 to 240 and 300 to 331)\<close>

definition processCartItems ::
  "Env \<Rightarrow> InventoryItem list \<Rightarrow> Payload option \<Rightarrow> SaleItem list" where
  "processCartItems env catalog data =
     (case data of
        None \<Rightarrow> []
      | Some d \<Rightarrow>
          (case d_items d of
             None \<Rightarrow> []
           | Some its \<Rightarrow>
               map (\<lambda>item.
                 (let invItem = find (matchesName env (p_name item)) catalog
                  in \<lparr>s_name = p_name item, s_quantity = p_quantity item,
                      s_price = Some (jsOr (map_option i_price invItem) (jsOr (p_price item) 0))\<rparr>))
                 its))"

text \<open>
  The body of the cart's \<open>forEach\<close>: \<open>find\<close> returns the first line of that name, whose
  quantity is increased in place; with no such line the incoming line is pushed.
\<close>

definition mergeLine :: "SaleItem \<Rightarrow> SaleItem list \<Rightarrow> SaleItem list" where
  "mergeLine item newCart =
     (case findIndex (\<lambda>p. s_name p = s_name item) newCart of
        Some k \<Rightarrow> newCart[k := (newCart ! k)\<lparr>s_quantity := s_quantity (newCart ! k) + s_quantity item\<rparr>]
      | None \<Rightarrow> newCart @ [item])"

fun mergeCart :: "SaleItem list \<Rightarrow> SaleItem list \<Rightarrow> SaleItem list" where
  "mergeCart [] newCart = newCart"
| "mergeCart (item # rest) newCart = mergeCart rest (mergeLine item newCart)"

section \<open>Inventory update (src/App.tsx, lines 243 to 296)\<close>

text \<open>
  Lines 249 to 279, the part of the loop body that changes the inventory: it returns the
  inventory and the locals \<open>quantityAdded\<close> and \<open>currentPrice\<close>. \<open>newId\<close> is the
  \<open>Date.now().toString() + Math.random()\<close> of line 269.
\<close>

definition applyChange ::
  "Env \<Rightarrow> string \<Rightarrow> PayloadItem \<Rightarrow> InventoryItem list \<Rightarrow> InventoryItem list \<times> rat \<times> rat" where
  "applyChange env newId newItem newInv =
     (let existingIndex = findIndex (matchesEither env (p_name newItem)) newInv;
          currentPrice = (case existingIndex of
                            Some k \<Rightarrow> i_price (newInv ! k)
                          | None \<Rightarrow> jsOr (p_price newItem) 50)
      in case existingIndex of
           Some k \<Rightarrow>
             (let oldQty = i_quantity (newInv ! k) in
              if p_changeType newItem = Some ''subtract'' then
                (newInv[k := (newInv ! k)\<lparr>i_quantity := max 0 (oldQty - p_quantity newItem)\<rparr>],
                 0, currentPrice)
              else if p_changeType newItem = Some ''set'' then
                (newInv[k := (newInv ! k)\<lparr>i_quantity := p_quantity newItem\<rparr>],
                 (if p_quantity newItem > oldQty then p_quantity newItem - oldQty else 0),
                 currentPrice)
              else
                (newInv[k := (newInv ! k)\<lparr>i_quantity := oldQty + p_quantity newItem\<rparr>],
                 p_quantity newItem, currentPrice))
         | None \<Rightarrow>
             if p_changeType newItem \<noteq> Some ''subtract'' then
               (newInv @
                  [\<lparr>i_id = newId, i_name = p_name newItem, i_quantity = p_quantity newItem,
                    i_unit = ''unit'', i_price = jsOr (p_price newItem) 0,
                    i_expiryDate = Some (daysAgo env (-180)),
                    i_image = Some ''https://images.unsplash.com/photo-1576618148400-f54bed99fcf8?w=300&q=80''\<rparr>],
                p_quantity newItem, currentPrice)
             else (newInv, 0, currentPrice))"

text \<open>The whole loop body: lines 281 to 284 add the line's cost to \<open>totalOutcome\<close>.\<close>

definition restockStep ::
  "Env \<Rightarrow> nat \<Rightarrow> PayloadItem \<Rightarrow> InventoryItem list \<Rightarrow> rat \<Rightarrow> InventoryItem list \<times> rat" where
  "restockStep env n newItem newInv totalOutcome =
     (case applyChange env (nowMs env @ mathRandom env n) newItem newInv of
        (inv1, quantityAdded, currentPrice) \<Rightarrow>
          (inv1, if quantityAdded > 0
                 then totalOutcome + quantityAdded * (currentPrice * (8 / 10))
                 else totalOutcome))"

fun restockLoop ::
  "Env \<Rightarrow> nat \<Rightarrow> PayloadItem list \<Rightarrow> InventoryItem list \<Rightarrow> rat \<Rightarrow> InventoryItem list \<times> rat" where
  "restockLoop env n [] newInv totalOutcome = (newInv, totalOutcome)"
| "restockLoop env n (newItem # rest) newInv totalOutcome =
     (case restockStep env n newItem newInv totalOutcome of
        (inv1, total1) \<Rightarrow> restockLoop env (Suc n) rest inv1 total1)"

definition asSaleItem :: "PayloadItem \<Rightarrow> SaleItem" where
  "asSaleItem p = \<lparr>s_name = p_name p, s_quantity = p_quantity p, s_price = p_price p\<rparr>"

section \<open>The dispatcher (src/App.tsx, lines 242 to 336)\<close>

text \<open>
  The result is the state after the handler and the render that follows it, or the
  exception raised on the way.
  \<^item> UPDATE_INVENTORY and RESTOCK read \<open>data.items\<close> inside the updater only (line 248), so
    a null \<open>data\<close> or a missing \<open>items\<close> raises its TypeError in the render; line 292 is not
    reached then, since \<open>totalOutcome\<close> is still 0. With an items array, line 289 sees the
    \<open>totalOutcome\<close> of the loop when the updater ran at the call, and 0 otherwise.
  \<^item> RECORD_SALE reads \<open>data.items\<close> at line 299, and with a missing \<open>items\<close> the recorder
    reaches \<open>itemsToSell.reduce\<close> at line 197 with \<open>total = 0\<close>: both raise in the handler.
    It hands the payload lines to the sale recorder, which reads their name, quantity and
    price only.
\<close>

definition handleAiAction :: "Env \<Rightarrow> string \<Rightarrow> Payload option \<Rightarrow> AppState \<Rightarrow> error + AppState" where
  "handleAiAction env actionType data s =
     (if actionType = ''UPDATE_INVENTORY'' \<or> actionType = ''RESTOCK'' then
        (case data of
           None \<Rightarrow> Inl TypeErrorInRender
         | Some d \<Rightarrow>
             (case d_items d of
                None \<Rightarrow> Inl TypeErrorInRender
              | Some its \<Rightarrow>
                  (case restockLoop env 0 its (inventory s) 0 of
                     (newInv, totalRun) \<Rightarrow>
                       (let totalOutcome = (if updaterAtCall env then totalRun else 0) in
                        Inr (s\<lparr>inventory := newInv,
                               expenses :=
                                 (if totalOutcome > 0
                                  then expenses s @
                                    [\<lparr>e_id = nowMs env,
                                      e_description = ''Restock: '' @ showNat (length its) @ '' items'',
                                      e_amount = mathRound totalOutcome,
                                      e_date = nowIso env\<rparr>]
                                  else expenses s)\<rparr>)))))
      else if actionType = ''RECORD_SALE'' then
        (case data of
           None \<Rightarrow> Inl TypeError
         | Some d \<Rightarrow>
             (case d_items d of
                None \<Rightarrow> Inl TypeError
              | Some its \<Rightarrow> Inr (updateInventoryAndRecordSale env (map asSaleItem its) s)))
      else if actionType = ''ADD_TO_CART'' \<or> actionType = ''UPDATE_CART'' then
        Inr (s\<lparr>cart := mergeCart (processCartItems env (inventory s) data) (cart s)\<rparr>)
      else if actionType = ''VIEW_BILL'' \<or> actionType = ''NAVIGATE_BILL'' then
        Inr (s\<lparr>cart := mergeCart (processCartItems env (inventory s) data) (cart s),
               activeTab := Calculator\<rparr>)
      else if actionType = ''COMPLETE_SALE'' then
        Inr (updateInventoryAndRecordSale env (processCartItems env (inventory s) data) s)
      else Inr s)"

section \<open>Cart operations of the bill calculator (BillCalculator, lines 81 to 104)\<close>

definition addToCart :: "InventoryItem \<Rightarrow> rat \<Rightarrow> SaleItem list \<Rightarrow> SaleItem list" where
  "addToCart item qtyToAdd prev =
     (case find (\<lambda>i. s_name i = i_name item) prev of
        Some existing \<Rightarrow>
          map (\<lambda>i. if s_name i = i_name item
                   then i\<lparr>s_quantity := s_quantity i + qtyToAdd\<rparr> else i) prev
      | None \<Rightarrow>
          prev @ [\<lparr>s_name = i_name item, s_quantity = qtyToAdd, s_price = Some (i_price item)\<rparr>])"

definition updateQty :: "string \<Rightarrow> rat \<Rightarrow> SaleItem list \<Rightarrow> SaleItem list" where
  "updateQty name delta prev =
     map (\<lambda>item.
       if s_name item = name then
         (let newQty = s_quantity item + delta in
          if newQty \<le> 0 then item else item\<lparr>s_quantity := newQty\<rparr>)
       else item) prev"

definition removeItem :: "string \<Rightarrow> SaleItem list \<Rightarrow> SaleItem list" where
  "removeItem name prev = filter (\<lambda>i. s_name i \<noteq> name) prev"

text \<open>
  The only callers of these operations are three buttons (lines 384, 416 and 423): the
  catalog's add button calls \<open>addToCart(item)\<close> with the default quantity 1, the minus
  button of a cart line calls \<open>updateQty(item.name, -1)\<close> when the line's quantity is above
  1 and \<open>removeItem(item.name)\<close> otherwise, and the plus button calls
  \<open>updateQty(item.name, 1)\<close>.
\<close>

definition addClick :: "InventoryItem \<Rightarrow> SaleItem list \<Rightarrow> SaleItem list" where
  "addClick item prev = addToCart item 1 prev"

definition minusClick :: "SaleItem \<Rightarrow> SaleItem list \<Rightarrow> SaleItem list" where
  "minusClick item prev =
     (if s_quantity item > 1 then updateQty (s_name item) (- 1) prev
      else removeItem (s_name item) prev)"

definition plusClick :: "SaleItem \<Rightarrow> SaleItem list \<Rightarrow> SaleItem list" where
  "plusClick item prev = updateQty (s_name item) 1 prev"

text \<open>
  The voice path of the bill calculator (lines 133 to 145): one \<open>setCart\<close> per recognised
  item, with the same price lookup as \<open>processCartItems\<close>.
\<close>

definition voiceAddLine ::
  "Env \<Rightarrow> InventoryItem list \<Rightarrow> PayloadItem \<Rightarrow> SaleItem list \<Rightarrow> SaleItem list" where
  "voiceAddLine env catalog voiceItem prev =
     (let invItem = find (matchesName env (p_name voiceItem)) catalog;
          price = jsOr (map_option i_price invItem) (jsOr (p_price voiceItem) 0)
      in case find (\<lambda>p. s_name p = p_name voiceItem) prev of
           Some existing \<Rightarrow>
             map (\<lambda>p. if s_name p = p_name voiceItem
                      then p\<lparr>s_quantity := s_quantity p + p_quantity voiceItem\<rparr> else p) prev
         | None \<Rightarrow>
             prev @ [\<lparr>s_name = p_name voiceItem, s_quantity = p_quantity voiceItem,
                      s_price = Some price\<rparr>])"

section \<open>Reachable states\<close>

text \<open>
  The states the application can be in: any state with an empty cart (login and logout
  reset the cart), closed under the dispatcher, checkout of the current cart, quick
  restock, adding a product, switching tabs, and the cart operations of the bill
  calculator.
\<close>

inductive reachable :: "AppState \<Rightarrow> bool" where
  start: "cart s = [] \<Longrightarrow> reachable s"
| dispatch: "reachable s \<Longrightarrow> handleAiAction env actionType data s = Inr s' \<Longrightarrow> reachable s'"
| checkout: "reachable s \<Longrightarrow> reachable (handleSaleComplete env (cart s) s)"
| restock: "reachable s \<Longrightarrow> reachable (handleQuickRestock env itemName s)"
| newItem: "reachable s \<Longrightarrow> reachable (handleAddNewItem newItem s)"
| tab: "reachable s \<Longrightarrow> reachable (s\<lparr>activeTab := t\<rparr>)"
| add: "reachable s \<Longrightarrow> reachable (s\<lparr>cart := addToCart item qtyToAdd (cart s)\<rparr>)"
| qty: "reachable s \<Longrightarrow> reachable (s\<lparr>cart := updateQty name delta (cart s)\<rparr>)"
| remove: "reachable s \<Longrightarrow> reachable (s\<lparr>cart := removeItem name (cart s)\<rparr>)"
| voice: "reachable s \<Longrightarrow>
    reachable (s\<lparr>cart := fold (voiceAddLine env (inventory s)) voiceItems (cart s)\<rparr>)"

text \<open>
  The carts the buttons of the bill calculator alone can produce, starting from the empty
  cart; the minus and plus buttons belong to a line of the cart shown.
\<close>

inductive uiCart :: "SaleItem list \<Rightarrow> bool" where
  empty: "uiCart []"
| addButton: "uiCart c \<Longrightarrow> uiCart (addClick item c)"
| minusButton: "uiCart c \<Longrightarrow> l \<in> set c \<Longrightarrow> uiCart (minusClick l c)"
| plusButton: "uiCart c \<Longrightarrow> l \<in> set c \<Longrightarrow> uiCart (plusClick l c)"

section \<open>Derived quantities used in the statements\<close>

text \<open>
  The pairs (quantityAdded, currentPrice) that the loop of the inventory update computes,
  line by line, each line against the inventory the lines before it left.
\<close>

fun lineDeltas :: "Env \<Rightarrow> nat \<Rightarrow> PayloadItem list \<Rightarrow> InventoryItem list \<Rightarrow> (rat \<times> rat) list" where
  "lineDeltas env n [] newInv = []"
| "lineDeltas env n (newItem # rest) newInv =
     (case applyChange env (nowMs env @ mathRandom env n) newItem newInv of
        (inv1, quantityAdded, currentPrice) \<Rightarrow>
          (quantityAdded, currentPrice) # lineDeltas env (Suc n) rest inv1)"

text \<open>
  The aggregate of the specification: the sum of priceUsed * 0.8 * quantityDelta over the
  lines with a positive quantityDelta.
\<close>

definition aggregatedCost :: "(rat \<times> rat) list \<Rightarrow> rat" where
  "aggregatedCost ds =
     sum_list (map (\<lambda>(quantityDelta, priceUsed). priceUsed * (8 / 10) * quantityDelta)
       (filter (\<lambda>(quantityDelta, priceUsed). quantityDelta > 0) ds))"

text \<open>
  For the sale recorder: whether a line's name resolves, and the price the recorder
  charges for a line, which is the line's own price unless that is missing or 0, then the
  price of the resolved item, or 0 when nothing resolves.
\<close>

definition resolves :: "Env \<Rightarrow> InventoryItem list \<Rightarrow> SaleItem \<Rightarrow> bool" where
  "resolves env catalog l = (findIndex (matchesName env (s_name l)) catalog \<noteq> None)"

definition chargedPrice :: "Env \<Rightarrow> InventoryItem list \<Rightarrow> SaleItem \<Rightarrow> rat" where
  "chargedPrice env catalog l =
     (case find (matchesName env (s_name l)) catalog of
        Some i \<Rightarrow> jsOr (s_price l) (i_price i)
      | None \<Rightarrow> jsOr (s_price l) 0)"

text \<open>
  The total as the specification words it: the resolved inventory price when the name
  resolves, else the line's own price, times the quantity, over all lines.
\<close>

definition claimedSaleTotal :: "Env \<Rightarrow> InventoryItem list \<Rightarrow> SaleItem list \<Rightarrow> rat" where
  "claimedSaleTotal env catalog items0 =
     sum_list (map (\<lambda>l. (case find (matchesName env (s_name l)) catalog of
                            Some i \<Rightarrow> i_price i
                          | None \<Rightarrow> jsOr (s_price l) 0) * s_quantity l) items0)"

text \<open>The quantity a cart holds under one name, summed over its lines of that name.\<close>

definition cartQuantity :: "string \<Rightarrow> SaleItem list \<Rightarrow> rat" where
  "cartQuantity n c = sum_list (map s_quantity (filter (\<lambda>l. s_name l = n) c))"

section \<open>Concrete inputs for the examples\<close>

text \<open>
  A fixed environment and the application's state right after login, with empty ledgers,
  on which the theorems below are instantiated.
\<close>

definition witnessEnv :: Env where
  "witnessEnv = \<lparr>nowMs = ''1700000000000'', nowIso = ''2023-11-14T22:13:20.000Z'',
     daysAgo = (\<lambda>d. ''2024-01-01T00:00:00.000Z''), mathRandom = (\<lambda>n. ''0.5''),
     toLowerCase = asciiLowerCase, updaterAtCall = True\<rparr>"

text \<open>The same environment when React runs the updater only at the next render.\<close>

definition deferredEnv :: Env where
  "deferredEnv = witnessEnv\<lparr>updaterAtCall := False\<rparr>"

definition witnessState :: AppState where
  "witnessState = \<lparr>inventory = INITIAL_INVENTORY witnessEnv, sales = [], expenses = [],
     cart = [], activeTab = Chat\<rparr>"

section \<open>Auxiliary facts about the primitives\<close>

lemma startsWith_iff: "startsWith s t \<longleftrightarrow> (\<exists>r. s = t @ r)"
  by (induction s t rule: startsWith.induct) auto

lemma includesStr_iff: "includesStr s t \<longleftrightarrow> (\<exists>p r. s = p @ t @ r)"
proof (induction s)
  case Nil
  then show ?case by auto
next
  case (Cons a s)
  show ?case
  proof
    assume "includesStr (a # s) t"
    then consider "startsWith (a # s) t" | "includesStr s t" by auto
    then show "\<exists>p r. a # s = p @ t @ r"
    proof cases
      case 1
      then obtain r where "a # s = t @ r" by (auto simp: startsWith_iff)
      then have "a # s = [] @ t @ r" by simp
      then show ?thesis by blast
    next
      case 2
      then obtain p r where "s = p @ t @ r" using Cons.IH by blast
      then have "a # s = (a # p) @ t @ r" by simp
      then show ?thesis by blast
    qed
  next
    assume "\<exists>p r. a # s = p @ t @ r"
    then obtain p r where pr: "a # s = p @ t @ r" by blast
    show "includesStr (a # s) t"
    proof (cases p)
      case Nil
      with pr have "startsWith (a # s) t" by (auto simp: startsWith_iff)
      then show ?thesis by simp
    next
      case (Cons b p')
      with pr have "s = p' @ t @ r" by simp
      then have "includesStr s t" using Cons.IH by blast
      then show ?thesis by simp
    qed
  qed
qed

lemma findIndex_Some_iff:
  "findIndex P xs = Some k \<longleftrightarrow> k < length xs \<and> P (xs ! k) \<and> (\<forall>j<k. \<not> P (xs ! j))"
proof (induction xs arbitrary: k)
  case Nil
  then show ?case by simp
next
  case (Cons x xs)
  show ?case
  proof (cases "P x")
    case True
    then show ?thesis by (cases k) auto
  next
    case False
    show ?thesis
    proof (cases k)
      case 0
      with False show ?thesis by auto
    next
      case (Suc m)
      have "(\<forall>j<Suc m. \<not> P ((x # xs) ! j)) \<longleftrightarrow> (\<forall>j<m. \<not> P (xs ! j))"
        using False by (auto simp: less_Suc_eq_0_disj)
      with False Suc Cons.IH [of m] show ?thesis by auto
    qed
  qed
qed

lemma findIndex_None_iff: "findIndex P xs = None \<longleftrightarrow> (\<forall>x\<in>set xs. \<not> P x)"
  by (induction xs) auto

lemma findIndex_less: "findIndex P xs = Some k \<Longrightarrow> k < length xs"
  by (simp add: findIndex_Some_iff)

lemma findIndex_map_cong:
  "map P xs = map Q ys \<Longrightarrow> findIndex P xs = findIndex Q ys"
proof (induction xs arbitrary: ys)
  case Nil
  then show ?case by simp
next
  case (Cons x xs)
  then obtain y ys' where "ys = y # ys'" by (cases ys) auto
  with Cons show ?case by auto
qed

lemma find_findIndex: "find P xs = map_option (\<lambda>k. xs ! k) (findIndex P xs)"
  by (induction xs) (auto simp: option.map_comp comp_def)

lemma applyChange_found:
  assumes "findIndex (matchesEither env (p_name newItem)) newInv = Some k"
  shows "applyChange env newId newItem newInv =
     (newInv[k := (newInv ! k)\<lparr>i_quantity :=
          (if p_changeType newItem = Some ''subtract''
           then max 0 (i_quantity (newInv ! k) - p_quantity newItem)
           else if p_changeType newItem = Some ''set'' then p_quantity newItem
           else i_quantity (newInv ! k) + p_quantity newItem)\<rparr>],
      (if p_changeType newItem = Some ''subtract'' then 0
       else if p_changeType newItem = Some ''set''
         then max 0 (p_quantity newItem - i_quantity (newInv ! k))
       else p_quantity newItem),
      i_price (newInv ! k))"
  using assms by (simp add: applyChange_def Let_def max_def)

lemma applyChange_missing:
  assumes "findIndex (matchesEither env (p_name newItem)) newInv = None"
  shows "applyChange env newId newItem newInv =
     (if p_changeType newItem \<noteq> Some ''subtract'' then
        (newInv @
           [\<lparr>i_id = newId, i_name = p_name newItem, i_quantity = p_quantity newItem,
             i_unit = ''unit'', i_price = jsOr (p_price newItem) 0,
             i_expiryDate = Some (daysAgo env (-180)),
             i_image = Some ''https://images.unsplash.com/photo-1576618148400-f54bed99fcf8?w=300&q=80''\<rparr>],
         p_quantity newItem, jsOr (p_price newItem) 50)
      else (newInv, 0, jsOr (p_price newItem) 50))"
  using assms by (simp add: applyChange_def Let_def)

lemma aggregatedCost_Cons:
  "aggregatedCost ((qa, cp) # ds) = (if qa > 0 then cp * (8 / 10) * qa else 0) + aggregatedCost ds"
  by (simp add: aggregatedCost_def)

lemma aggregatedCost_Nil: "aggregatedCost [] = 0"
  by (simp add: aggregatedCost_def)

lemma restockLoop_total:
  "snd (restockLoop env n its newInv t) = t + aggregatedCost (lineDeltas env n its newInv)"
proof (induction its arbitrary: n newInv t)
  case Nil
  then show ?case by (simp add: aggregatedCost_Nil)
next
  case (Cons newItem rest)
  obtain inv1 qa cp where a: "applyChange env (nowMs env @ mathRandom env n) newItem newInv = (inv1, qa, cp)"
    by (cases "applyChange env (nowMs env @ mathRandom env n) newItem newInv") auto
  show ?case
    by (simp add: restockStep_def a Cons.IH aggregatedCost_Cons)
qed

lemma mathRound_nearest: "\<bar>mathRound x - x\<bar> \<le> 1 / 2 \<and> mathRound x \<in> \<int>"
proof -
  have "of_int \<lfloor>x + 1 / 2\<rfloor> \<le> x + 1 / 2" and "x + 1 / 2 < of_int \<lfloor>x + 1 / 2\<rfloor> + 1"
    by linarith+
  then have "\<bar>of_int \<lfloor>x + 1 / 2\<rfloor> - x\<bar> \<le> 1 / 2" by linarith
  moreover have "(of_int \<lfloor>x + 1 / 2\<rfloor> :: rat) \<in> \<int>" by (rule Ints_of_int)
  ultimately show ?thesis unfolding mathRound_def by (rule conjI)
qed

lemma foldl_add_sum_list:
  "foldl (\<lambda>a b. a + f b) (a0 :: rat) xs = a0 + sum_list (map f xs)"
  by (induction xs arbitrary: a0) (simp_all add: add.assoc)

lemma map_field_update_same:
  assumes "k < length xs" and "f y = f (xs ! k)"
  shows "map f (xs[k := y]) = map f xs"
  using assms by (simp add: map_update list_update_same_conv)

lemma matchesName_names:
  assumes "map i_name ys = map i_name xs"
  shows "findIndex (matchesName env q) ys = findIndex (matchesName env q) xs"
proof (rule findIndex_map_cong)
  have eq: "matchesName env q = (\<lambda>n. includesStr (toLowerCase env n) (toLowerCase env q)) \<circ> i_name"
    by (rule ext) (simp add: matchesName_def)
  have "map (matchesName env q) zs
      = map (\<lambda>n. includesStr (toLowerCase env n) (toLowerCase env q)) (map i_name zs)" for zs
    unfolding eq by (simp only: map_map)
  then show "map (matchesName env q) ys = map (matchesName env q) xs"
    by (simp only: assms)
qed

lemma nth_price_names:
  assumes "map i_price ys = map i_price xs" and "k < length xs"
  shows "i_price (ys ! k) = i_price (xs ! k)"
proof -
  have "length ys = length xs" using assms(1) by (metis length_map)
  then have "i_price (ys ! k) = map i_price ys ! k" using assms(2) by simp
  also have "\<dots> = i_price (xs ! k)" using assms by simp
  finally show ?thesis .
qed

lemma sellStep_resolved:
  assumes "findIndex (matchesName env (s_name l)) newInv = Some k"
  shows "sellStep env l newInv t =
     ((if falsy (s_price l) then l\<lparr>s_price := Some (i_price (newInv ! k))\<rparr> else l),
      newInv[k := (newInv ! k)\<lparr>i_quantity := max 0 (i_quantity (newInv ! k) - s_quantity l)\<rparr>],
      t + jsOr (s_price l) (i_price (newInv ! k)) * s_quantity l)"
proof -
  have k: "k < length newInv" using assms by (rule findIndex_less)
  show ?thesis
    using k by (auto simp: sellStep_def assms Let_def falsy_def jsOr_def split: option.splits)
qed

lemma sellStep_unresolved:
  assumes "findIndex (matchesName env (s_name l)) newInv = None"
  shows "sellStep env l newInv t = (l, newInv, t)"
  by (simp add: sellStep_def assms)

lemma chargedPrice_resolved:
  assumes "findIndex (matchesName env (s_name l)) catalog = Some k"
  shows "chargedPrice env catalog l = jsOr (s_price l) (i_price (catalog ! k))"
  by (simp add: chargedPrice_def find_findIndex assms)

lemma chargedPrice_unresolved:
  assumes "findIndex (matchesName env (s_name l)) catalog = None"
  shows "chargedPrice env catalog l = jsOr (s_price l) 0"
  by (simp add: chargedPrice_def find_findIndex assms)

text \<open>
  The loop of the sale recorder, started on an inventory with the names and prices of
  \<open>catalog\<close>: what it adds to the running total, and what the fallback sum over the
  returned lines is.
\<close>

lemma sellLoop_total:
  assumes "map i_name newInv = map i_name catalog" and "map i_price newInv = map i_price catalog"
  shows "snd (snd (sellLoop env items0 newInv t)) =
           t + sum_list (map (\<lambda>l. chargedPrice env catalog l * s_quantity l)
                 (filter (resolves env catalog) items0)) \<and>
         sum_list (map (\<lambda>b. jsOr (s_price b) 0 * s_quantity b) (fst (sellLoop env items0 newInv t))) =
           sum_list (map (\<lambda>l. chargedPrice env catalog l * s_quantity l) items0)"
  using assms
proof (induction items0 arbitrary: newInv t)
  case Nil
  then show ?case by simp
next
  case (Cons l rest)
  have same: "findIndex (matchesName env (s_name l)) newInv = findIndex (matchesName env (s_name l)) catalog"
    using Cons.prems(1) by (rule matchesName_names)
  have len: "length newInv = length catalog" using Cons.prems(1) by (metis length_map)
  show ?case
  proof (cases "findIndex (matchesName env (s_name l)) catalog")
    case None
    then have st: "sellStep env l newInv t = (l, newInv, t)"
      using same by (simp add: sellStep_unresolved)
    obtain r1 i2 t2 where lp: "sellLoop env rest newInv t = (r1, i2, t2)"
      by (cases "sellLoop env rest newInv t") auto
    from Cons.IH [OF Cons.prems, of t] lp
    have ih: "t2 = t + sum_list (map (\<lambda>l. chargedPrice env catalog l * s_quantity l)
                 (filter (resolves env catalog) rest))"
      and ih2: "sum_list (map (\<lambda>b. jsOr (s_price b) 0 * s_quantity b) r1) =
           sum_list (map (\<lambda>l. chargedPrice env catalog l * s_quantity l) rest)"
      by simp_all
    have nres: "\<not> resolves env catalog l" using None by (simp add: resolves_def)
    have cp: "chargedPrice env catalog l = jsOr (s_price l) 0"
      using None by (rule chargedPrice_unresolved)
    have "sellLoop env (l # rest) newInv t = (l # r1, i2, t2)"
      by (simp only: sellLoop.simps st lp prod.case)
    then show ?thesis
      using nres by (simp only: fst_conv snd_conv list.map sum_list.Cons filter.simps if_False ih ih2 cp)
  next
    case (Some k)
    then have fk: "findIndex (matchesName env (s_name l)) newInv = Some k" using same by simp
    have k: "k < length newInv" using fk by (rule findIndex_less)
    have pk: "i_price (newInv ! k) = i_price (catalog ! k)"
      using Cons.prems(2) k [unfolded len] by (rule nth_price_names)
    let ?inv1 = "newInv[k := (newInv ! k)\<lparr>i_quantity := max 0 (i_quantity (newInv ! k) - s_quantity l)\<rparr>]"
    let ?l1 = "if falsy (s_price l) then l\<lparr>s_price := Some (i_price (newInv ! k))\<rparr> else l"
    have st: "sellStep env l newInv t = (?l1, ?inv1, t + jsOr (s_price l) (i_price (newInv ! k)) * s_quantity l)"
      using fk by (rule sellStep_resolved)
    have n1: "map i_name ?inv1 = map i_name catalog"
      using k Cons.prems(1) by (simp add: map_field_update_same)
    have p1: "map i_price ?inv1 = map i_price catalog"
      using k Cons.prems(2) by (simp add: map_field_update_same)
    obtain r1 i2 t2 where lp: "sellLoop env rest ?inv1 (t + jsOr (s_price l) (i_price (newInv ! k)) * s_quantity l) = (r1, i2, t2)"
      by (cases "sellLoop env rest ?inv1 (t + jsOr (s_price l) (i_price (newInv ! k)) * s_quantity l)") auto
    from Cons.IH [OF n1 p1, of "t + jsOr (s_price l) (i_price (newInv ! k)) * s_quantity l"] lp
    have ih: "t2 = t + jsOr (s_price l) (i_price (newInv ! k)) * s_quantity l
                 + sum_list (map (\<lambda>l. chargedPrice env catalog l * s_quantity l)
                     (filter (resolves env catalog) rest))"
      and ih2: "sum_list (map (\<lambda>b. jsOr (s_price b) 0 * s_quantity b) r1) =
           sum_list (map (\<lambda>l. chargedPrice env catalog l * s_quantity l) rest)"
      by simp_all
    have l1: "jsOr (s_price ?l1) 0 * s_quantity ?l1 = jsOr (s_price l) (i_price (newInv ! k)) * s_quantity l"
      by (auto simp: falsy_def jsOr_def split: option.splits)
    have cp: "chargedPrice env catalog l = jsOr (s_price l) (i_price (newInv ! k))"
      using Some pk by (simp add: chargedPrice_resolved)
    have res: "resolves env catalog l" using Some by (simp add: resolves_def)
    have "sellLoop env (l # rest) newInv t = (?l1 # r1, i2, t2)"
      by (simp only: sellLoop.simps st lp prod.case)
    then show ?thesis
      using res by (simp only: fst_conv snd_conv list.map sum_list.Cons filter.simps if_True l1 ih ih2 cp)
        (simp add: add.assoc)
  qed
qed

lemma findIndex_name_None:
  "findIndex (\<lambda>p. s_name p = n) xs = None \<longleftrightarrow> n \<notin> set (map s_name xs)"
  by (auto simp: findIndex_None_iff)

lemma find_name_None:
  "find (\<lambda>p. s_name p = n) xs = None \<longleftrightarrow> n \<notin> set (map s_name xs)"
  by (auto simp: find_None_iff)

lemma mergeLine_found:
  assumes "findIndex (\<lambda>p. s_name p = s_name item) newCart = Some k"
  shows "mergeLine item newCart =
           newCart[k := (newCart ! k)\<lparr>s_quantity := s_quantity (newCart ! k) + s_quantity item\<rparr>]"
  by (simp add: mergeLine_def assms)

lemma mergeLine_names:
  "map s_name (mergeLine item newCart) =
     (if s_name item \<in> set (map s_name newCart) then map s_name newCart
      else map s_name newCart @ [s_name item])"
proof (cases "findIndex (\<lambda>p. s_name p = s_name item) newCart")
  case None
  then have "s_name item \<notin> set (map s_name newCart)"
    using findIndex_name_None [of "s_name item" newCart] by blast
  then show ?thesis by (simp add: mergeLine_def None)
next
  case (Some k)
  then have k: "k < length newCart" by (rule findIndex_less)
  have "s_name item \<in> set (map s_name newCart)"
    using Some findIndex_name_None [of "s_name item" newCart] by simp
  then show ?thesis
    using k by (simp add: mergeLine_found [OF Some] map_field_update_same)
qed

lemma mergeLine_distinct:
  "distinct (map s_name newCart) \<Longrightarrow> distinct (map s_name (mergeLine item newCart))"
  by (simp add: mergeLine_names)

lemma mergeCart_distinct:
  "distinct (map s_name newCart) \<Longrightarrow> distinct (map s_name (mergeCart its newCart))"
  by (induction its arbitrary: newCart) (simp_all add: mergeLine_distinct)

lemma addToCart_names:
  "map s_name (addToCart item q prev) =
     (if i_name item \<in> set (map s_name prev) then map s_name prev
      else map s_name prev @ [i_name item])"
proof (cases "find (\<lambda>i. s_name i = i_name item) prev")
  case None
  then have "i_name item \<notin> set (map s_name prev)"
    using find_name_None [of "i_name item" prev] by blast
  then show ?thesis by (simp add: addToCart_def None)
next
  case (Some e)
  then have "i_name item \<in> set (map s_name prev)"
    using find_name_None [of "i_name item" prev] by simp
  moreover have "map s_name (map (\<lambda>i. if s_name i = i_name item
      then i\<lparr>s_quantity := s_quantity i + q\<rparr> else i) prev) = map s_name prev"
    by (induction prev) auto
  ultimately show ?thesis using Some by (simp add: addToCart_def)
qed

lemma voiceAddLine_names:
  "map s_name (voiceAddLine env catalog v prev) =
     (if p_name v \<in> set (map s_name prev) then map s_name prev
      else map s_name prev @ [p_name v])"
proof (cases "find (\<lambda>p. s_name p = p_name v) prev")
  case None
  then have "p_name v \<notin> set (map s_name prev)"
    using find_name_None [of "p_name v" prev] by blast
  then show ?thesis by (simp add: voiceAddLine_def Let_def None)
next
  case (Some e)
  then have "p_name v \<in> set (map s_name prev)"
    using find_name_None [of "p_name v" prev] by simp
  moreover have "map s_name (map (\<lambda>p. if s_name p = p_name v
      then p\<lparr>s_quantity := s_quantity p + p_quantity v\<rparr> else p) prev) = map s_name prev"
    by (induction prev) auto
  ultimately show ?thesis using Some by (simp add: voiceAddLine_def Let_def)
qed

lemma voiceAdd_distinct:
  "distinct (map s_name prev) \<Longrightarrow> distinct (map s_name (fold (voiceAddLine env catalog) vs prev))"
  by (induction vs arbitrary: prev) (simp_all add: voiceAddLine_names)

lemma updateQty_names: "map s_name (updateQty name delta prev) = map s_name prev"
  by (induction prev) (auto simp: updateQty_def Let_def)

lemma removeItem_distinct:
  "distinct (map s_name prev) \<Longrightarrow> distinct (map s_name (removeItem name prev))"
  by (simp add: removeItem_def distinct_map_filter)

lemma updateInventoryAndRecordSale_cart:
  "cart (updateInventoryAndRecordSale env its s) = cart s"
  by (simp add: updateInventoryAndRecordSale_def Let_def split: prod.splits)

lemma handleAiAction_cart:
  assumes "handleAiAction env actionType data s = Inr s'"
  shows "cart s' = cart s \<or> cart s' = mergeCart (processCartItems env (inventory s) data) (cart s)"
proof (cases "actionType = ''UPDATE_INVENTORY'' \<or> actionType = ''RESTOCK''")
  case True
  have "handleAiAction env actionType data s =
      (case data of None \<Rightarrow> Inl TypeErrorInRender
       | Some d \<Rightarrow> (case d_items d of None \<Rightarrow> Inl TypeErrorInRender
          | Some its \<Rightarrow> (case restockLoop env 0 its (inventory s) 0 of
              (newInv, totalRun) \<Rightarrow>
                (let totalOutcome = (if updaterAtCall env then totalRun else 0) in
                 Inr (s\<lparr>inventory := newInv,
                        expenses :=
                          (if totalOutcome > 0
                           then expenses s @
                             [\<lparr>e_id = nowMs env,
                               e_description = ''Restock: '' @ showNat (length its) @ '' items'',
                               e_amount = mathRound totalOutcome,
                               e_date = nowIso env\<rparr>]
                           else expenses s)\<rparr>)))))"
    unfolding handleAiAction_def by (simp only: True [THEN eqTrueI] if_True)
  with assms show ?thesis
    by (auto simp: Let_def split: option.splits prod.splits)
next
  case n1: False
  show ?thesis
  proof (cases "actionType = ''RECORD_SALE''")
    case True
    have "handleAiAction env actionType data s =
        (case data of None \<Rightarrow> Inl TypeError
         | Some d \<Rightarrow> (case d_items d of None \<Rightarrow> Inl TypeError
            | Some its \<Rightarrow> Inr (updateInventoryAndRecordSale env (map asSaleItem its) s)))"
      unfolding handleAiAction_def
      by (simp only: n1 [THEN Eq_FalseI] True [THEN eqTrueI] if_True if_False)
    with assms show ?thesis
      by (auto simp: updateInventoryAndRecordSale_cart split: option.splits)
  next
    case n2: False
    show ?thesis
    proof (cases "actionType = ''ADD_TO_CART'' \<or> actionType = ''UPDATE_CART''")
      case True
      have "handleAiAction env actionType data s =
          Inr (s\<lparr>cart := mergeCart (processCartItems env (inventory s) data) (cart s)\<rparr>)"
        unfolding handleAiAction_def
        by (simp only: n1 [THEN Eq_FalseI] n2 [THEN Eq_FalseI] True [THEN eqTrueI] if_True if_False)
      with assms show ?thesis by auto
    next
      case n3: False
      show ?thesis
      proof (cases "actionType = ''VIEW_BILL'' \<or> actionType = ''NAVIGATE_BILL''")
        case True
        have "handleAiAction env actionType data s =
            Inr (s\<lparr>cart := mergeCart (processCartItems env (inventory s) data) (cart s),
                   activeTab := Calculator\<rparr>)"
          unfolding handleAiAction_def
          by (simp only: n1 [THEN Eq_FalseI] n2 [THEN Eq_FalseI] n3 [THEN Eq_FalseI]
              True [THEN eqTrueI] if_True if_False)
        with assms show ?thesis by auto
      next
        case n4: False
        show ?thesis
        proof (cases "actionType = ''COMPLETE_SALE''")
          case True
          have "handleAiAction env actionType data s =
              Inr (updateInventoryAndRecordSale env (processCartItems env (inventory s) data) s)"
            unfolding handleAiAction_def
            by (simp only: n1 [THEN Eq_FalseI] n2 [THEN Eq_FalseI] n3 [THEN Eq_FalseI]
                n4 [THEN Eq_FalseI] True [THEN eqTrueI] if_True if_False)
          with assms show ?thesis by (auto simp: updateInventoryAndRecordSale_cart)
        next
          case n5: False
          have "handleAiAction env actionType data s = Inr s"
            unfolding handleAiAction_def
            by (simp only: n1 [THEN Eq_FalseI] n2 [THEN Eq_FalseI] n3 [THEN Eq_FalseI]
                n4 [THEN Eq_FalseI] n5 [THEN Eq_FalseI] if_True if_False)
          with assms show ?thesis by auto
        qed
      qed
    qed
  qed
qed

lemma handleAiAction_cart_distinct:
  assumes "handleAiAction env actionType data s = Inr s'" and "distinct (map s_name (cart s))"
  shows "distinct (map s_name (cart s'))"
  using handleAiAction_cart [OF assms(1)] assms(2) by (auto simp: mergeCart_distinct)

lemma reachable_distinct: "reachable s \<Longrightarrow> distinct (map s_name (cart s))"
proof (induction rule: reachable.induct)
  case (start s)
  then show ?case by simp
next
  case (dispatch s env actionType data s')
  then show ?case by (auto intro: handleAiAction_cart_distinct)
next
  case (checkout s env)
  then show ?case by (simp add: handleSaleComplete_def)
next
  case (restock s env itemName)
  then show ?case by (simp add: handleQuickRestock_def)
next
  case (newItem s newItem)
  then show ?case by (simp add: handleAddNewItem_def)
next
  case (tab s t)
  then show ?case by simp
next
  case (add s item qtyToAdd)
  then show ?case by (simp add: addToCart_names)
next
  case (qty s name delta)
  then show ?case by (simp add: updateQty_names)
next
  case (remove s name)
  then show ?case by (simp add: removeItem_distinct)
next
  case (voice s env voiceItems)
  then show ?case by (simp add: voiceAdd_distinct)
qed

lemma updateQty_nth:
  assumes "k < length prev"
  shows "updateQty name delta prev ! k =
     (if s_name (prev ! k) = name \<and> 0 < s_quantity (prev ! k) + delta
      then (prev ! k)\<lparr>s_quantity := s_quantity (prev ! k) + delta\<rparr> else prev ! k)"
  using assms by (auto simp: updateQty_def Let_def)

lemma updateQty_positive:
  assumes "\<forall>l\<in>set prev. 0 < s_quantity l"
  shows "\<forall>l\<in>set (updateQty name delta prev). 0 < s_quantity l"
  using assms by (auto simp: updateQty_def Let_def)

lemma addToCart_existing:
  assumes "i_name item \<in> set (map s_name prev)"
  shows "addToCart item q prev =
     map (\<lambda>i. if s_name i = i_name item then i\<lparr>s_quantity := s_quantity i + q\<rparr> else i) prev"
proof -
  from assms have "find (\<lambda>i. s_name i = i_name item) prev \<noteq> None"
    using find_name_None [of "i_name item" prev] by blast
  then show ?thesis by (auto simp: addToCart_def)
qed

lemma addToCart_new:
  assumes "i_name item \<notin> set (map s_name prev)"
  shows "addToCart item q prev =
     prev @ [\<lparr>s_name = i_name item, s_quantity = q, s_price = Some (i_price item)\<rparr>]"
proof -
  from assms have "find (\<lambda>i. s_name i = i_name item) prev = None"
    using find_name_None [of "i_name item" prev] by blast
  then show ?thesis by (simp add: addToCart_def)
qed

lemma mergeLine_existing:
  assumes "s_name item \<in> set (map s_name newCart)"
  shows "\<exists>k<length newCart. s_name (newCart ! k) = s_name item \<and>
           (\<forall>j<k. s_name (newCart ! j) \<noteq> s_name item) \<and>
           mergeLine item newCart =
             newCart[k := (newCart ! k)\<lparr>s_quantity := s_quantity (newCart ! k) + s_quantity item\<rparr>]"
proof -
  from assms obtain k where k: "findIndex (\<lambda>p. s_name p = s_name item) newCart = Some k"
    using findIndex_name_None [of "s_name item" newCart] by auto
  then have "k < length newCart \<and> s_name (newCart ! k) = s_name item \<and>
      (\<forall>j<k. s_name (newCart ! j) \<noteq> s_name item)"
    by (simp add: findIndex_Some_iff)
  with mergeLine_found [OF k] show ?thesis by blast
qed

lemma mergeLine_new:
  assumes "s_name item \<notin> set (map s_name newCart)"
  shows "mergeLine item newCart = newCart @ [item]"
proof -
  from assms have "findIndex (\<lambda>p. s_name p = s_name item) newCart = None"
    using findIndex_name_None [of "s_name item" newCart] by blast
  then show ?thesis by (simp add: mergeLine_def)
qed

lemma mergeCart_example:
  assumes "a \<noteq> b"
  shows "mergeCart [\<lparr>s_name = a, s_quantity = 1, s_price = p3\<rparr>]
           (mergeCart [\<lparr>s_name = a, s_quantity = 2, s_price = p1\<rparr>,
                       \<lparr>s_name = b, s_quantity = 1, s_price = p2\<rparr>] [])
         = [\<lparr>s_name = a, s_quantity = 3, s_price = p1\<rparr>, \<lparr>s_name = b, s_quantity = 1, s_price = p2\<rparr>]"
    and "mergeCart [\<lparr>s_name = a, s_quantity = 1, s_price = p3\<rparr>]
           [\<lparr>s_name = a, s_quantity = 2, s_price = p1\<rparr>, \<lparr>s_name = b, s_quantity = 1, s_price = p2\<rparr>]
         = [\<lparr>s_name = a, s_quantity = 3, s_price = p1\<rparr>, \<lparr>s_name = b, s_quantity = 1, s_price = p2\<rparr>]"
  using assms by (simp_all add: mergeLine_def)

lemma mergeLine_Cons:
  "mergeLine item (x # xs) =
     (if s_name x = s_name item then x\<lparr>s_quantity := s_quantity x + s_quantity item\<rparr> # xs
      else x # mergeLine item xs)"
  by (simp add: mergeLine_def split: option.splits)

lemma mergeLine_Nil: "mergeLine item [] = [item]"
  by (simp add: mergeLine_def)

lemma mergeLine_quantity:
  "cartQuantity n (mergeLine item c) = cartQuantity n c + cartQuantity n [item]"
proof (induction c)
  case Nil
  then show ?case by (simp add: mergeLine_Nil cartQuantity_def)
next
  case (Cons x xs)
  then show ?case by (simp add: mergeLine_Cons cartQuantity_def)
qed

lemma mergeCart_quantity:
  "cartQuantity n (mergeCart its c) = cartQuantity n c + cartQuantity n its"
proof (induction its arbitrary: c)
  case Nil
  then show ?case by (simp add: cartQuantity_def)
next
  case (Cons item rest)
  have "cartQuantity n (item # rest) = cartQuantity n [item] + cartQuantity n rest"
    by (simp add: cartQuantity_def)
  then show ?case by (simp add: Cons.IH mergeLine_quantity)
qed

lemma matchesEither_iff:
  "matchesEither env q i \<longleftrightarrow>
     (\<exists>p r. toLowerCase env (i_name i) = p @ toLowerCase env q @ r) \<or>
     (\<exists>p r. toLowerCase env q = p @ toLowerCase env (i_name i) @ r)"
  by (simp add: matchesEither_def includesStr_iff)

lemma matchesName_iff:
  "matchesName env q i \<longleftrightarrow> (\<exists>p r. toLowerCase env (i_name i) = p @ toLowerCase env q @ r)"
  by (simp add: matchesName_def includesStr_iff)

lemma find_Some_findIndex:
  "find P xs = Some x \<longleftrightarrow> (\<exists>k. findIndex P xs = Some k \<and> x = xs ! k)"
  by (auto simp: find_findIndex)

section \<open>Inventory update: the three change semantics\<close>

text \<open>
  Claim C3. When the name of an UPDATE_INVENTORY or RESTOCK line resolves to the item at
  index \<open>k\<close> with prior quantity \<open>q\<close>: a line whose changeType is neither
  \<open>subtract\<close> nor \<open>set\<close> (the default, add) gives quantity \<open>q + requested\<close> and
  quantityAdded \<open>requested\<close>; \<open>subtract\<close> gives \<open>max 0 (q - requested)\<close>, quantityAdded 0
  and leaves the running cost unchanged; \<open>set\<close> gives exactly \<open>requested\<close> and
  quantityAdded \<open>max 0 (requested - q)\<close>.
\<close>

theorem applyChange_semantics:
  assumes "findIndex (matchesEither env (p_name newItem)) newInv = Some k"
  shows "(p_changeType newItem \<noteq> Some ''subtract'' \<and> p_changeType newItem \<noteq> Some ''set'' \<longrightarrow>
            i_quantity (fst (applyChange env newId newItem newInv) ! k)
              = i_quantity (newInv ! k) + p_quantity newItem \<and>
            fst (snd (applyChange env newId newItem newInv)) = p_quantity newItem) \<and>
         (p_changeType newItem = Some ''subtract'' \<longrightarrow>
            i_quantity (fst (applyChange env newId newItem newInv) ! k)
              = max 0 (i_quantity (newInv ! k) - p_quantity newItem) \<and>
            fst (snd (applyChange env newId newItem newInv)) = 0 \<and>
            snd (restockStep env n newItem newInv totalOutcome) = totalOutcome) \<and>
         (p_changeType newItem = Some ''set'' \<longrightarrow>
            i_quantity (fst (applyChange env newId newItem newInv) ! k) = p_quantity newItem \<and>
            fst (snd (applyChange env newId newItem newInv))
              = max 0 (p_quantity newItem - i_quantity (newInv ! k)))"
proof -
  have k: "k < length newInv" using assms by (rule findIndex_less)
  show ?thesis
    using k by (simp add: applyChange_found [OF assms] restockStep_def)
qed

text \<open>
  The three branches on the initial inventory, where \<open>bread\<close> resolves to item 7
  (index 6, quantity 5).
\<close>

theorem applyChange_semantics_witness:
  "i_quantity (fst (applyChange witnessEnv ''n1''
      \<lparr>p_name = ''bread'', p_quantity = 3, p_changeType = None, p_price = None\<rparr>
      (INITIAL_INVENTORY witnessEnv)) ! 6) = 8 \<and>
   fst (snd (applyChange witnessEnv ''n1''
      \<lparr>p_name = ''bread'', p_quantity = 3, p_changeType = None, p_price = None\<rparr>
      (INITIAL_INVENTORY witnessEnv))) = 3 \<and>
   i_quantity (fst (applyChange witnessEnv ''n1''
      \<lparr>p_name = ''bread'', p_quantity = 9, p_changeType = Some ''subtract'', p_price = None\<rparr>
      (INITIAL_INVENTORY witnessEnv)) ! 6) = 0 \<and>
   fst (snd (applyChange witnessEnv ''n1''
      \<lparr>p_name = ''bread'', p_quantity = 9, p_changeType = Some ''subtract'', p_price = None\<rparr>
      (INITIAL_INVENTORY witnessEnv))) = 0 \<and>
   i_quantity (fst (applyChange witnessEnv ''n1''
      \<lparr>p_name = ''bread'', p_quantity = 12, p_changeType = Some ''set'', p_price = None\<rparr>
      (INITIAL_INVENTORY witnessEnv)) ! 6) = 12 \<and>
   fst (snd (applyChange witnessEnv ''n1''
      \<lparr>p_name = ''bread'', p_quantity = 12, p_changeType = Some ''set'', p_price = None\<rparr>
      (INITIAL_INVENTORY witnessEnv))) = 7"
proof -
  have h: "findIndex (matchesEither witnessEnv ''bread'') (INITIAL_INVENTORY witnessEnv) = Some 6"
    by code_simp
  have q: "i_quantity (INITIAL_INVENTORY witnessEnv ! 6) = 5"
    by (simp add: INITIAL_INVENTORY_def)
  note a = applyChange_semantics [where newInv = "INITIAL_INVENTORY witnessEnv" and k = 6
      and env = witnessEnv and newId = "''n1''" and n = 0 and totalOutcome = 0]
  from a [of "\<lparr>p_name = ''bread'', p_quantity = 3, p_changeType = None, p_price = None\<rparr>"]
       a [of "\<lparr>p_name = ''bread'', p_quantity = 9, p_changeType = Some ''subtract'', p_price = None\<rparr>"]
       a [of "\<lparr>p_name = ''bread'', p_quantity = 12, p_changeType = Some ''set'', p_price = None\<rparr>"]
       h q
  show ?thesis by simp
qed

section \<open>Inventory update: lines that resolve to no item\<close>

text \<open>
  Claim C4. When the name of an UPDATE_INVENTORY or RESTOCK line resolves to no item:
  unless its changeType is \<open>subtract\<close>, a new item is appended with the requested
  quantity and the line's price (0 when the line has none), quantityAdded is the requested
  quantity, and a positive quantity is costed at the line's price (50 when it has none);
  with \<open>subtract\<close> the line changes nothing, and an action made of that line alone
  returns the state as it was.
\<close>

theorem applyChange_unresolved:
  assumes "findIndex (matchesEither env (p_name newItem)) newInv = None"
  shows "(p_changeType newItem \<noteq> Some ''subtract'' \<longrightarrow>
            applyChange env newId newItem newInv =
              (newInv @
                 [\<lparr>i_id = newId, i_name = p_name newItem, i_quantity = p_quantity newItem,
                   i_unit = ''unit'', i_price = jsOr (p_price newItem) 0,
                   i_expiryDate = Some (daysAgo env (-180)),
                   i_image = Some ''https://images.unsplash.com/photo-1576618148400-f54bed99fcf8?w=300&q=80''\<rparr>],
               p_quantity newItem, jsOr (p_price newItem) 50) \<and>
            snd (restockStep env n newItem newInv totalOutcome) =
              (if p_quantity newItem > 0
               then totalOutcome + p_quantity newItem * (jsOr (p_price newItem) 50 * (8 / 10))
               else totalOutcome)) \<and>
         (p_changeType newItem = Some ''subtract'' \<longrightarrow>
            restockStep env n newItem newInv totalOutcome = (newInv, totalOutcome) \<and>
            (newInv = inventory s \<longrightarrow>
               handleAiAction env ''UPDATE_INVENTORY'' (Some \<lparr>d_items = Some [newItem]\<rparr>) s = Inr s \<and>
               handleAiAction env ''RESTOCK'' (Some \<lparr>d_items = Some [newItem]\<rparr>) s = Inr s))"
proof -
  have step: "p_changeType newItem = Some ''subtract'' \<Longrightarrow>
      restockStep env m newItem newInv 0 = (newInv, 0)" for m
    by (simp add: applyChange_missing [OF assms] restockStep_def)
  have disp: "handleAiAction env ''UPDATE_INVENTORY'' (Some \<lparr>d_items = Some [newItem]\<rparr>) s = Inr s \<and>
      handleAiAction env ''RESTOCK'' (Some \<lparr>d_items = Some [newItem]\<rparr>) s = Inr s"
    if "p_changeType newItem = Some ''subtract''" and "newInv = inventory s"
    using step [OF that(1), of 0] that(2) by (simp add: handleAiAction_def Let_def)
  show ?thesis
    using disp by (simp add: applyChange_missing [OF assms] restockStep_def)
qed

text \<open>
  \<open>Parle-G\<close> is not in the initial inventory: added, it becomes the eighth item and
  costs 20 * (5 * 0.8) = 80; subtracted, the state is unchanged.
\<close>

theorem applyChange_unresolved_witness:
  "applyChange witnessEnv ''n1''
      \<lparr>p_name = ''Parle-G'', p_quantity = 20, p_changeType = None, p_price = Some 5\<rparr>
      (INITIAL_INVENTORY witnessEnv) =
     (INITIAL_INVENTORY witnessEnv @
        [\<lparr>i_id = ''n1'', i_name = ''Parle-G'', i_quantity = 20, i_unit = ''unit'', i_price = 5,
          i_expiryDate = Some ''2024-01-01T00:00:00.000Z'',
          i_image = Some ''https://images.unsplash.com/photo-1576618148400-f54bed99fcf8?w=300&q=80''\<rparr>],
      20, 5) \<and>
   snd (restockStep witnessEnv 0
      \<lparr>p_name = ''Parle-G'', p_quantity = 20, p_changeType = None, p_price = Some 5\<rparr>
      (INITIAL_INVENTORY witnessEnv) 0) = 80 \<and>
   handleAiAction witnessEnv ''UPDATE_INVENTORY''
      (Some \<lparr>d_items = Some [\<lparr>p_name = ''Parle-G'', p_quantity = 20,
         p_changeType = Some ''subtract'', p_price = Some 5\<rparr>]\<rparr>) witnessState = Inr witnessState \<and>
   handleAiAction witnessEnv ''RESTOCK''
      (Some \<lparr>d_items = Some [\<lparr>p_name = ''Parle-G'', p_quantity = 20,
         p_changeType = Some ''subtract'', p_price = Some 5\<rparr>]\<rparr>) witnessState = Inr witnessState"
proof -
  have h: "findIndex (matchesEither witnessEnv ''Parle-G'') (INITIAL_INVENTORY witnessEnv) = None"
    by code_simp
  have i: "INITIAL_INVENTORY witnessEnv = inventory witnessState"
    by (simp add: witnessState_def)
  have d: "daysAgo witnessEnv (-180) = ''2024-01-01T00:00:00.000Z''"
    by (simp add: witnessEnv_def)
  note a = applyChange_unresolved [where newInv = "INITIAL_INVENTORY witnessEnv"
      and env = witnessEnv and n = 0 and totalOutcome = 0 and s = witnessState]
  from a [of "\<lparr>p_name = ''Parle-G'', p_quantity = 20, p_changeType = None, p_price = Some 5\<rparr>" "''n1''"]
       a [of "\<lparr>p_name = ''Parle-G'', p_quantity = 20, p_changeType = Some ''subtract'', p_price = Some 5\<rparr>" "''n1''"]
       h i d
  show ?thesis by (simp add: jsOr_def)
qed

section \<open>Inventory update: what a resolved line leaves alone\<close>

text \<open>
  Claim C10. A line that resolves to the item at index \<open>k\<close> changes nothing but that
  item's quantity: the inventory keeps its length, every item keeps its id, name, unit,
  price, expiry date and image, every other item is unchanged, and the price used for
  the cost is the stored price of the item, whatever price the line carries.
\<close>

theorem restockStep_frame:
  assumes "findIndex (matchesEither env (p_name newItem)) newInv = Some k"
  shows "length (fst (restockStep env n newItem newInv totalOutcome)) = length newInv \<and>
         (\<forall>j<length newInv.
            i_id (fst (restockStep env n newItem newInv totalOutcome) ! j) = i_id (newInv ! j) \<and>
            i_name (fst (restockStep env n newItem newInv totalOutcome) ! j) = i_name (newInv ! j) \<and>
            i_unit (fst (restockStep env n newItem newInv totalOutcome) ! j) = i_unit (newInv ! j) \<and>
            i_price (fst (restockStep env n newItem newInv totalOutcome) ! j) = i_price (newInv ! j) \<and>
            i_expiryDate (fst (restockStep env n newItem newInv totalOutcome) ! j)
              = i_expiryDate (newInv ! j) \<and>
            i_image (fst (restockStep env n newItem newInv totalOutcome) ! j) = i_image (newInv ! j) \<and>
            (j \<noteq> k \<longrightarrow> fst (restockStep env n newItem newInv totalOutcome) ! j = newInv ! j)) \<and>
         snd (snd (applyChange env (nowMs env @ mathRandom env n) newItem newInv))
           = i_price (newInv ! k) \<and>
         snd (restockStep env n newItem newInv totalOutcome) =
           (if fst (snd (applyChange env (nowMs env @ mathRandom env n) newItem newInv)) > 0
            then totalOutcome
              + fst (snd (applyChange env (nowMs env @ mathRandom env n) newItem newInv))
                * (i_price (newInv ! k) * (8 / 10))
            else totalOutcome)"
proof -
  have k: "k < length newInv" using assms by (rule findIndex_less)
  have nth: "\<And>j q. j < length newInv \<Longrightarrow>
      (newInv[k := (newInv ! k)\<lparr>i_quantity := q\<rparr>]) ! j
        = (if j = k then (newInv ! k)\<lparr>i_quantity := q\<rparr> else newInv ! j)"
    by (simp add: nth_list_update)
  show ?thesis
    by (simp add: restockStep_def applyChange_found [OF assms] nth)
qed

text \<open>
  A \<open>bread\<close> line carrying the price 99: the stored price stays 40 and the cost is
  3 * (40 * 0.8) = 96.
\<close>

theorem restockStep_frame_witness:
  "i_price (fst (restockStep witnessEnv 0
      \<lparr>p_name = ''bread'', p_quantity = 3, p_changeType = None, p_price = Some 99\<rparr>
      (INITIAL_INVENTORY witnessEnv) 0) ! 6) = 40 \<and>
   i_name (fst (restockStep witnessEnv 0
      \<lparr>p_name = ''bread'', p_quantity = 3, p_changeType = None, p_price = Some 99\<rparr>
      (INITIAL_INVENTORY witnessEnv) 0) ! 6) = ''Bread'' \<and>
   fst (restockStep witnessEnv 0
      \<lparr>p_name = ''bread'', p_quantity = 3, p_changeType = None, p_price = Some 99\<rparr>
      (INITIAL_INVENTORY witnessEnv) 0) ! 5 = INITIAL_INVENTORY witnessEnv ! 5 \<and>
   snd (restockStep witnessEnv 0
      \<lparr>p_name = ''bread'', p_quantity = 3, p_changeType = None, p_price = Some 99\<rparr>
      (INITIAL_INVENTORY witnessEnv) 0) = 96"
proof -
  have h: "findIndex (matchesEither witnessEnv ''bread'') (INITIAL_INVENTORY witnessEnv) = Some 6"
    by code_simp
  have len: "length (INITIAL_INVENTORY witnessEnv) = 7"
    by (simp add: INITIAL_INVENTORY_def)
  have p: "i_price (INITIAL_INVENTORY witnessEnv ! 6) = 40"
    and nm: "i_name (INITIAL_INVENTORY witnessEnv ! 6) = ''Bread''"
    by (simp_all add: INITIAL_INVENTORY_def)
  have qa: "fst (snd (applyChange witnessEnv (nowMs witnessEnv @ mathRandom witnessEnv 0)
      \<lparr>p_name = ''bread'', p_quantity = 3, p_changeType = None, p_price = Some 99\<rparr>
      (INITIAL_INVENTORY witnessEnv))) = 3"
    using h by (simp add: applyChange_def Let_def)
  from restockStep_frame [of witnessEnv
      "\<lparr>p_name = ''bread'', p_quantity = 3, p_changeType = None, p_price = Some 99\<rparr>"
      "INITIAL_INVENTORY witnessEnv" 6 0 0] h
  have f: "(\<forall>j<7.
            i_name (fst (restockStep witnessEnv 0
      \<lparr>p_name = ''bread'', p_quantity = 3, p_changeType = None, p_price = Some 99\<rparr>
      (INITIAL_INVENTORY witnessEnv) 0) ! j) = i_name (INITIAL_INVENTORY witnessEnv ! j) \<and>
            i_price (fst (restockStep witnessEnv 0
      \<lparr>p_name = ''bread'', p_quantity = 3, p_changeType = None, p_price = Some 99\<rparr>
      (INITIAL_INVENTORY witnessEnv) 0) ! j) = i_price (INITIAL_INVENTORY witnessEnv ! j) \<and>
            (j \<noteq> 6 \<longrightarrow> fst (restockStep witnessEnv 0
      \<lparr>p_name = ''bread'', p_quantity = 3, p_changeType = None, p_price = Some 99\<rparr>
      (INITIAL_INVENTORY witnessEnv) 0) ! j = INITIAL_INVENTORY witnessEnv ! j))"
    and c: "snd (restockStep witnessEnv 0
      \<lparr>p_name = ''bread'', p_quantity = 3, p_changeType = None, p_price = Some 99\<rparr>
      (INITIAL_INVENTORY witnessEnv) 0) = 96"
    by (simp_all add: len p qa)
  from f have "i_price (fst (restockStep witnessEnv 0
      \<lparr>p_name = ''bread'', p_quantity = 3, p_changeType = None, p_price = Some 99\<rparr>
      (INITIAL_INVENTORY witnessEnv) 0) ! 6) = i_price (INITIAL_INVENTORY witnessEnv ! 6)"
    and "i_name (fst (restockStep witnessEnv 0
      \<lparr>p_name = ''bread'', p_quantity = 3, p_changeType = None, p_price = Some 99\<rparr>
      (INITIAL_INVENTORY witnessEnv) 0) ! 6) = i_name (INITIAL_INVENTORY witnessEnv ! 6)"
    and "fst (restockStep witnessEnv 0
      \<lparr>p_name = ''bread'', p_quantity = 3, p_changeType = None, p_price = Some 99\<rparr>
      (INITIAL_INVENTORY witnessEnv) 0) ! 5 = INITIAL_INVENTORY witnessEnv ! 5"
    by simp_all
  with p nm c show ?thesis by simp
qed

section \<open>Payloads without an items array\<close>

text \<open>
  Claim C7, at the inputs where it fails. A null payload and a payload without
  \<open>items\<close> make UPDATE_INVENTORY and RESTOCK raise a TypeError from the inventory updater,
  in the render, and RECORD_SALE raise one in the handler, since those branches read
  \<open>data.items\<close> with no guard; COMPLETE_SALE goes through the guard of
  \<open>processCartItems\<close> and then appends a sale record with no items and total 0.
\<close>

theorem dispatch_missing_items:
  "handleAiAction env ''UPDATE_INVENTORY'' None s = Inl TypeErrorInRender \<and>
   handleAiAction env ''UPDATE_INVENTORY'' (Some \<lparr>d_items = None\<rparr>) s = Inl TypeErrorInRender \<and>
   handleAiAction env ''RESTOCK'' None s = Inl TypeErrorInRender \<and>
   handleAiAction env ''RESTOCK'' (Some \<lparr>d_items = None\<rparr>) s = Inl TypeErrorInRender \<and>
   handleAiAction env ''RECORD_SALE'' None s = Inl TypeError \<and>
   handleAiAction env ''RECORD_SALE'' (Some \<lparr>d_items = None\<rparr>) s = Inl TypeError \<and>
   handleAiAction env ''COMPLETE_SALE'' (Some \<lparr>d_items = None\<rparr>) s =
     Inr (s\<lparr>sales := sales s @
        [\<lparr>sr_id = nowMs env, sr_items = [], sr_totalAmount = 0, sr_date = nowIso env\<rparr>]\<rparr>)"
  by (simp add: handleAiAction_def processCartItems_def updateInventoryAndRecordSale_def)

section \<open>Negative stock\<close>

text \<open>
  Claim C1, at inputs where it fails. A \<open>set\<close> line with quantity -3 for Bread stores
  -3, an \<open>add\<close> line with quantity -9 takes Bread from 5 to -4, and a line for an unknown
  product with quantity -1 creates an item with quantity -1: only the \<open>subtract\<close> branch
  and the sale recorder clamp at 0.
\<close>

theorem negative_quantity_stored:
  "(case handleAiAction witnessEnv ''UPDATE_INVENTORY''
      (Some \<lparr>d_items = Some [\<lparr>p_name = ''Bread'', p_quantity = - 3,
         p_changeType = Some ''set'', p_price = None\<rparr>]\<rparr>) witnessState of
      Inl e \<Rightarrow> []
    | Inr s' \<Rightarrow> map i_quantity (inventory s')) = [45, 8, 20, 4, 30, 5, - 3] \<and>
   (case handleAiAction witnessEnv ''UPDATE_INVENTORY''
      (Some \<lparr>d_items = Some [\<lparr>p_name = ''Bread'', p_quantity = - 9,
         p_changeType = Some ''add'', p_price = None\<rparr>]\<rparr>) witnessState of
      Inl e \<Rightarrow> []
    | Inr s' \<Rightarrow> map i_quantity (inventory s')) = [45, 8, 20, 4, 30, 5, - 4] \<and>
   (case handleAiAction witnessEnv ''RESTOCK''
      (Some \<lparr>d_items = Some [\<lparr>p_name = ''Parle-G'', p_quantity = - 1,
         p_changeType = None, p_price = None\<rparr>]\<rparr>) witnessState of
      Inl e \<Rightarrow> []
    | Inr s' \<Rightarrow> map i_quantity (inventory s')) = [45, 8, 20, 4, 30, 5, 5, - 1]"
  by code_simp

section \<open>One expense per restock action\<close>

text \<open>
  When the inventory updater runs at the call, an UPDATE_INVENTORY or RESTOCK action with
  an items array appends exactly one expense record, with the rounded aggregate as its
  amount, when the aggregate of priceUsed * 0.8 * quantityDelta over the lines with a
  positive quantityDelta is positive, and none otherwise.
\<close>

lemma restock_expense_at_call:
  assumes "actionType = ''UPDATE_INVENTORY'' \<or> actionType = ''RESTOCK''"
    and "updaterAtCall env"
  shows "handleAiAction env actionType (Some \<lparr>d_items = Some its\<rparr>) s =
     Inr (s\<lparr>inventory := fst (restockLoop env 0 its (inventory s) 0),
            expenses :=
              (if aggregatedCost (lineDeltas env 0 its (inventory s)) > 0
               then expenses s @
                 [\<lparr>e_id = nowMs env,
                   e_description = ''Restock: '' @ showNat (length its) @ '' items'',
                   e_amount = mathRound (aggregatedCost (lineDeltas env 0 its (inventory s))),
                   e_date = nowIso env\<rparr>]
               else expenses s)\<rparr>)"
proof -
  obtain newInv t where l: "restockLoop env 0 its (inventory s) 0 = (newInv, t)"
    by (cases "restockLoop env 0 its (inventory s) 0") auto
  have t: "t = aggregatedCost (lineDeltas env 0 its (inventory s))"
    using restockLoop_total [of env 0 its "inventory s" 0] l by simp
  have "handleAiAction env actionType (Some \<lparr>d_items = Some its\<rparr>) s =
     Inr (s\<lparr>inventory := newInv,
            expenses :=
              (if t > 0
               then expenses s @
                 [\<lparr>e_id = nowMs env,
                   e_description = ''Restock: '' @ showNat (length its) @ '' items'',
                   e_amount = mathRound t, e_date = nowIso env\<rparr>]
               else expenses s)\<rparr>)"
    using assms l by (auto simp: handleAiAction_def Let_def)
  then show ?thesis
    using l t by simp
qed

text \<open>
  When the updater runs only in the render, line 289 sees \<open>totalOutcome = 0\<close>: the
  inventory is updated all the same, and no expense record is appended, whatever the
  lines are.
\<close>

lemma restock_expense_deferred:
  assumes "actionType = ''UPDATE_INVENTORY'' \<or> actionType = ''RESTOCK''"
    and "\<not> updaterAtCall env"
  shows "handleAiAction env actionType (Some \<lparr>d_items = Some its\<rparr>) s =
     Inr (s\<lparr>inventory := fst (restockLoop env 0 its (inventory s) 0), expenses := expenses s\<rparr>)"
proof -
  obtain newInv t where l: "restockLoop env 0 its (inventory s) 0 = (newInv, t)"
    by (cases "restockLoop env 0 its (inventory s) 0") auto
  show ?thesis
    using assms l by (auto simp: handleAiAction_def Let_def)
qed

text \<open>
  Claim C6, at an input where it fails. A RESTOCK of three lines (3 bread at 40, 21 new
  Parle-G at 3, 2 salt subtracted) has the aggregate 96 + 50.4 = 146.4. Dispatched while
  React defers the inventory updater, it appends no expense record; dispatched when the
  updater runs at the call, it appends the single amount 146.
\<close>

theorem restock_expense_lost:
  "aggregatedCost (lineDeltas deferredEnv 0
      [\<lparr>p_name = ''bread'', p_quantity = 3, p_changeType = None, p_price = None\<rparr>,
       \<lparr>p_name = ''Parle-G'', p_quantity = 21, p_changeType = None, p_price = Some 3\<rparr>,
       \<lparr>p_name = ''salt'', p_quantity = 2, p_changeType = Some ''subtract'', p_price = None\<rparr>]
      (inventory witnessState)) = 732 / 5 \<and>
   map_sum id (\<lambda>s'. map e_amount (expenses s'))
     (handleAiAction deferredEnv ''RESTOCK''
        (Some \<lparr>d_items = Some
           [\<lparr>p_name = ''bread'', p_quantity = 3, p_changeType = None, p_price = None\<rparr>,
            \<lparr>p_name = ''Parle-G'', p_quantity = 21, p_changeType = None, p_price = Some 3\<rparr>,
            \<lparr>p_name = ''salt'', p_quantity = 2, p_changeType = Some ''subtract'', p_price = None\<rparr>]\<rparr>)
        witnessState) = Inr [] \<and>
   map_sum id (\<lambda>s'. map i_quantity (inventory s'))
     (handleAiAction deferredEnv ''RESTOCK''
        (Some \<lparr>d_items = Some
           [\<lparr>p_name = ''bread'', p_quantity = 3, p_changeType = None, p_price = None\<rparr>,
            \<lparr>p_name = ''Parle-G'', p_quantity = 21, p_changeType = None, p_price = Some 3\<rparr>,
            \<lparr>p_name = ''salt'', p_quantity = 2, p_changeType = Some ''subtract'', p_price = None\<rparr>]\<rparr>)
        witnessState) = Inr [45, 8, 18, 4, 30, 5, 8, 21] \<and>
   map_sum id (\<lambda>s'. map e_amount (expenses s'))
     (handleAiAction witnessEnv ''RESTOCK''
        (Some \<lparr>d_items = Some
           [\<lparr>p_name = ''bread'', p_quantity = 3, p_changeType = None, p_price = None\<rparr>,
            \<lparr>p_name = ''Parle-G'', p_quantity = 21, p_changeType = None, p_price = Some 3\<rparr>,
            \<lparr>p_name = ''salt'', p_quantity = 2, p_changeType = Some ''subtract'', p_price = None\<rparr>]\<rparr>)
        witnessState) = Inr [146]"
  by code_simp

section \<open>Committing a sale\<close>

lemma jsOr_own:
  "\<not> falsy p \<Longrightarrow> jsOr p d = jsOr p 0"
  by (auto simp: falsy_def jsOr_def split: option.splits)

lemma chargedPrice_own:
  assumes "\<not> falsy (s_price l) \<or> \<not> resolves env catalog l"
  shows "chargedPrice env catalog l = jsOr (s_price l) 0"
proof (cases "find (matchesName env (s_name l)) catalog")
  case None
  then show ?thesis by (simp add: chargedPrice_def)
next
  case (Some i)
  then have "resolves env catalog l"
    by (auto simp: resolves_def find_findIndex)
  with assms have "\<not> falsy (s_price l)" by blast
  then show ?thesis using Some by (simp add: chargedPrice_def jsOr_own [of _ "i_price i"])
qed

text \<open>
  The total the sale recorder writes, on either schedule of the inventory updater: run at
  the call, the sum over the resolved lines of the charged price times the quantity, or,
  when that is 0, the sum over all lines; run in the render, the sum over all lines of
  the line's own price (0 when it has none) times the quantity.
\<close>

lemma recorded_total:
  "\<exists>r. sales (updateInventoryAndRecordSale env items0 s) = sales s @ [r] \<and>
        sr_totalAmount r =
          (if updaterAtCall env then
             (if sum_list (map (\<lambda>l. chargedPrice env (inventory s) l * s_quantity l)
                    (filter (resolves env (inventory s)) items0)) \<noteq> 0
              then sum_list (map (\<lambda>l. chargedPrice env (inventory s) l * s_quantity l)
                    (filter (resolves env (inventory s)) items0))
              else sum_list (map (\<lambda>l. chargedPrice env (inventory s) l * s_quantity l) items0))
           else sum_list (map (\<lambda>l. jsOr (s_price l) 0 * s_quantity l) items0))"
proof -
  obtain r1 i2 t2 where lp: "sellLoop env items0 (inventory s) 0 = (r1, i2, t2)"
    by (cases "sellLoop env items0 (inventory s) 0") auto
  from sellLoop_total [OF refl refl, of env items0 "inventory s" 0] lp
  have t2: "t2 = sum_list (map (\<lambda>l. chargedPrice env (inventory s) l * s_quantity l)
                 (filter (resolves env (inventory s)) items0))"
    and fb: "sum_list (map (\<lambda>b. jsOr (s_price b) 0 * s_quantity b) r1) =
           sum_list (map (\<lambda>l. chargedPrice env (inventory s) l * s_quantity l) items0)"
    by simp_all
  let ?r = "\<lparr>sr_id = nowMs env, sr_items = r1,
             sr_totalAmount =
               (if (if updaterAtCall env then t2 else 0) \<noteq> 0
                then (if updaterAtCall env then t2 else 0)
                else foldl (\<lambda>a b. a + jsOr (s_price b) 0 * s_quantity b) 0
                       (if updaterAtCall env then r1 else items0)),
             sr_date = nowIso env\<rparr>"
  have "sales (updateInventoryAndRecordSale env items0 s) = sales s @ [?r]"
    by (simp add: updateInventoryAndRecordSale_def lp Let_def)
  moreover have "sr_totalAmount ?r =
          (if updaterAtCall env then
             (if sum_list (map (\<lambda>l. chargedPrice env (inventory s) l * s_quantity l)
                    (filter (resolves env (inventory s)) items0)) \<noteq> 0
              then sum_list (map (\<lambda>l. chargedPrice env (inventory s) l * s_quantity l)
                    (filter (resolves env (inventory s)) items0))
              else sum_list (map (\<lambda>l. chargedPrice env (inventory s) l * s_quantity l) items0))
           else sum_list (map (\<lambda>l. jsOr (s_price l) 0 * s_quantity l) items0))"
    by (simp add: foldl_add_sum_list fb t2)
  ultimately show ?thesis by blast
qed

text \<open>
  Claim C2, as the code has it by design. Committing a cart appends exactly one sale
  record and leaves the cart empty. A line is charged at its own price: when every line's
  name resolves and every line carries a price of its own other than 0, as the lines
  added from the catalog do, the total is the sum over all lines of the line's own price
  times the quantity, whatever the price of the resolved item is; and when no line's name
  resolves, the total is again the sum over all lines of the line's own price (0 when it
  has none) times the quantity. Both hold on either schedule of the inventory updater.
\<close>

theorem handleSaleComplete_record:
  "\<exists>r. sales (handleSaleComplete env items0 s) = sales s @ [r] \<and>
        cart (handleSaleComplete env items0 s) = [] \<and>
        ((\<forall>l\<in>set items0. resolves env (inventory s) l \<and> \<not> falsy (s_price l)) \<longrightarrow>
           sr_totalAmount r = sum_list (map (\<lambda>l. jsOr (s_price l) 0 * s_quantity l) items0)) \<and>
        ((\<forall>l\<in>set items0. \<not> resolves env (inventory s) l) \<longrightarrow>
           sr_totalAmount r = sum_list (map (\<lambda>l. jsOr (s_price l) 0 * s_quantity l) items0))"
proof -
  let ?charged = "\<lambda>l. chargedPrice env (inventory s) l * s_quantity l"
  let ?own = "\<lambda>l. jsOr (s_price l) 0 * s_quantity l"
  from recorded_total [of env items0 s]
  obtain r where sl: "sales (updateInventoryAndRecordSale env items0 s) = sales s @ [r]"
    and tot: "sr_totalAmount r =
          (if updaterAtCall env then
             (if sum_list (map ?charged (filter (resolves env (inventory s)) items0)) \<noteq> 0
              then sum_list (map ?charged (filter (resolves env (inventory s)) items0))
              else sum_list (map ?charged items0))
           else sum_list (map ?own items0))"
    by blast
  have own: "map ?charged items0 = map ?own items0"
    if "\<forall>l\<in>set items0. \<not> falsy (s_price l) \<or> \<not> resolves env (inventory s) l"
    using that by (simp add: chargedPrice_own)
  have a: "sr_totalAmount r = sum_list (map ?own items0)"
    if h: "\<forall>l\<in>set items0. resolves env (inventory s) l \<and> \<not> falsy (s_price l)"
  proof -
    from h have f: "filter (resolves env (inventory s)) items0 = items0"
      by (simp add: filter_id_conv)
    from h have "map ?charged items0 = map ?own items0" by (intro own) blast
    then have S: "sum_list (map ?charged items0) = sum_list (map ?own items0)"
      by (simp only:)
    show ?thesis unfolding tot f S by simp
  qed
  have b: "sr_totalAmount r = sum_list (map ?own items0)"
    if h: "\<forall>l\<in>set items0. \<not> resolves env (inventory s) l"
  proof -
    from h have f: "filter (resolves env (inventory s)) items0 = []"
      by (simp add: filter_empty_conv)
    from h have "map ?charged items0 = map ?own items0" by (intro own) blast
    then have S: "sum_list (map ?charged items0) = sum_list (map ?own items0)"
      by (simp only:)
    show ?thesis unfolding tot f S by simp
  qed
  have "sales (handleSaleComplete env items0 s) = sales s @ [r]"
    and "cart (handleSaleComplete env items0 s) = []"
    using sl by (simp_all add: handleSaleComplete_def)
  with a b show ?thesis by blast
qed

text \<open>
  The cart of the specification, 2 Amul Milk at 28 and 1 Bread at 40, totals 96 on either
  schedule; a cart of 2 unknown Chips at 10 totals 20.
\<close>

theorem handleSaleComplete_record_witness:
  "map sr_totalAmount (sales (handleSaleComplete witnessEnv
      [\<lparr>s_name = ''Amul Milk'', s_quantity = 2, s_price = Some 28\<rparr>,
       \<lparr>s_name = ''Bread'', s_quantity = 1, s_price = Some 40\<rparr>] witnessState)) = [96] \<and>
   map sr_totalAmount (sales (handleSaleComplete deferredEnv
      [\<lparr>s_name = ''Amul Milk'', s_quantity = 2, s_price = Some 28\<rparr>,
       \<lparr>s_name = ''Bread'', s_quantity = 1, s_price = Some 40\<rparr>] witnessState)) = [96] \<and>
   cart (handleSaleComplete witnessEnv
      [\<lparr>s_name = ''Amul Milk'', s_quantity = 2, s_price = Some 28\<rparr>,
       \<lparr>s_name = ''Bread'', s_quantity = 1, s_price = Some 40\<rparr>] witnessState) = [] \<and>
   map sr_totalAmount (sales (handleSaleComplete witnessEnv
      [\<lparr>s_name = ''Chips'', s_quantity = 2, s_price = Some 10\<rparr>] witnessState)) = [20]"
proof -
  let ?c = "[\<lparr>s_name = ''Amul Milk'', s_quantity = 2, s_price = Some 28\<rparr>,
       \<lparr>s_name = ''Bread'', s_quantity = 1, s_price = Some 40\<rparr>]"
  let ?d = "[\<lparr>s_name = ''Chips'', s_quantity = 2, s_price = Some 10\<rparr>]"
  have res1: "\<forall>l\<in>set ?c. resolves witnessEnv (inventory witnessState) l \<and> \<not> falsy (s_price l)"
    and res2: "\<forall>l\<in>set ?c. resolves deferredEnv (inventory witnessState) l \<and> \<not> falsy (s_price l)"
    and res3: "\<forall>l\<in>set ?d. \<not> resolves witnessEnv (inventory witnessState) l"
    by code_simp+
  have e: "sales witnessState = []" by (simp add: witnessState_def)
  from handleSaleComplete_record [of witnessEnv ?c witnessState] res1
  obtain r1 where "sales (handleSaleComplete witnessEnv ?c witnessState) = sales witnessState @ [r1]"
    and "cart (handleSaleComplete witnessEnv ?c witnessState) = []"
    and "sr_totalAmount r1 = sum_list (map (\<lambda>l. jsOr (s_price l) 0 * s_quantity l) ?c)"
    by blast
  moreover from handleSaleComplete_record [of deferredEnv ?c witnessState] res2
  obtain r2 where "sales (handleSaleComplete deferredEnv ?c witnessState) = sales witnessState @ [r2]"
    and "sr_totalAmount r2 = sum_list (map (\<lambda>l. jsOr (s_price l) 0 * s_quantity l) ?c)"
    by blast
  moreover from handleSaleComplete_record [of witnessEnv ?d witnessState] res3
  obtain r3 where "sales (handleSaleComplete witnessEnv ?d witnessState) = sales witnessState @ [r3]"
    and "sr_totalAmount r3 = sum_list (map (\<lambda>l. jsOr (s_price l) 0 * s_quantity l) ?d)"
    by blast
  ultimately show ?thesis by (simp add: e jsOr_def)
qed

text \<open>
  The claim as worded fails where a line's price differs from the price of the item its
  name resolves to. A Brown Bread at 50 is added as a product, which puts it ahead of
  Bread; Bread is then added to the cart from the catalog, at its price 40. The name
  Bread resolves to Brown Bread, the first item whose name contains it, so the claim's
  total is 50; the record's total is 40, on either schedule.
\<close>

theorem sale_total_counterexample:
  "map sr_totalAmount (sales (handleSaleComplete witnessEnv
      (addClick (INITIAL_INVENTORY witnessEnv ! 6) [])
      (handleAddNewItem \<lparr>i_id = ''8'', i_name = ''Brown Bread'', i_quantity = 10,
         i_unit = ''unit'', i_price = 50, i_expiryDate = None, i_image = None\<rparr> witnessState)))
     = [40] \<and>
   map sr_totalAmount (sales (handleSaleComplete deferredEnv
      (addClick (INITIAL_INVENTORY witnessEnv ! 6) [])
      (handleAddNewItem \<lparr>i_id = ''8'', i_name = ''Brown Bread'', i_quantity = 10,
         i_unit = ''unit'', i_price = 50, i_expiryDate = None, i_image = None\<rparr> witnessState)))
     = [40] \<and>
   claimedSaleTotal witnessEnv
      (inventory (handleAddNewItem \<lparr>i_id = ''8'', i_name = ''Brown Bread'', i_quantity = 10,
         i_unit = ''unit'', i_price = 50, i_expiryDate = None, i_image = None\<rparr> witnessState))
      (addClick (INITIAL_INVENTORY witnessEnv ! 6) []) = 50"
  by code_simp

section \<open>The cart: one line per name, positive quantities\<close>

text \<open>
  The buttons of the bill calculator keep the cart well formed: the names of its lines
  are pairwise distinct and every quantity is positive. The minus button on a line of
  quantity 1 or less removes the line.
\<close>

lemma addToCart_positive:
  assumes "0 < q" and "\<forall>l\<in>set prev. 0 < s_quantity l"
  shows "\<forall>l\<in>set (addToCart item q prev). 0 < s_quantity l"
proof (cases "i_name item \<in> set (map s_name prev)")
  case True
  with assms show ?thesis by (auto simp: addToCart_existing intro: add_pos_pos)
next
  case False
  with assms show ?thesis by (auto simp: addToCart_new)
qed

lemma minusClick_last:
  "s_quantity l \<le> 1 \<Longrightarrow> s_name l \<notin> set (map s_name (minusClick l c))"
  by (auto simp: minusClick_def removeItem_def)

lemma uiCart_invariant:
  "uiCart c \<Longrightarrow> distinct (map s_name c) \<and> (\<forall>l\<in>set c. 0 < s_quantity l)"
proof (induction rule: uiCart.induct)
  case empty
  then show ?case by simp
next
  case (addButton c item)
  then show ?case
    using addToCart_positive [of 1 c item]
    by (simp add: addClick_def addToCart_names)
next
  case (minusButton c l)
  show ?case
  proof (cases "s_quantity l > 1")
    case True
    then have "minusClick l c = updateQty (s_name l) (- 1) c" by (simp add: minusClick_def)
    with minusButton.IH show ?thesis
      using updateQty_positive [of c "s_name l" "- 1"] by (simp add: updateQty_names)
  next
    case False
    then have "minusClick l c = removeItem (s_name l) c" by (simp add: minusClick_def)
    with minusButton.IH show ?thesis
      by (auto simp: removeItem_distinct) (simp add: removeItem_def)
  qed
next
  case (plusButton c l)
  then show ?case
    using updateQty_positive [of c "s_name l" 1]
    by (simp add: plusClick_def updateQty_names)
qed

text \<open>
  Claim C8, at inputs where it fails. The merge of the dispatcher adds the payload's
  quantity as it comes: an ADD_TO_CART for -2 Bread on the empty cart leaves a Bread line
  of quantity -2, and an UPDATE_CART for -1 Bread on a cart holding one Bread leaves a
  Bread line of quantity 0 instead of removing it.
\<close>

theorem cart_nonpositive_quantity:
  "map_sum id cart (handleAiAction witnessEnv ''ADD_TO_CART''
      (Some \<lparr>d_items = Some [\<lparr>p_name = ''Bread'', p_quantity = - 2, p_changeType = None,
         p_price = None\<rparr>]\<rparr>) witnessState)
     = Inr [\<lparr>s_name = ''Bread'', s_quantity = - 2, s_price = Some 40\<rparr>] \<and>
   map_sum id cart (handleAiAction witnessEnv ''UPDATE_CART''
      (Some \<lparr>d_items = Some [\<lparr>p_name = ''Bread'', p_quantity = - 1, p_changeType = None,
         p_price = None\<rparr>]\<rparr>)
      (witnessState\<lparr>cart := addClick (INITIAL_INVENTORY witnessEnv ! 6) []\<rparr>))
     = Inr [\<lparr>s_name = ''Bread'', s_quantity = 0, s_price = Some 40\<rparr>]"
  by code_simp

section \<open>The cart: merging lines\<close>

text \<open>
  Claim C9. Merging an incoming line whose name already has a cart line adds its quantity
  to the first line of that name and changes nothing else; otherwise the line is appended.
  The catalog's add-to-cart does the same with an inventory item. For two different names
  A and B, merging [{A,2},{B,1}] and then [{A,1}] into the empty cart gives the same cart
  as merging [{A,1}] into the cart [{A,2},{B,1}], namely {A,3},{B,1}. In general the
  quantity held under a name after a merge is the quantity before plus the incoming
  quantity of that name, whatever the order of the lines. ADD_TO_CART and UPDATE_CART
  merge the priced payload lines into the cart.
\<close>

theorem cart_merge:
  "(s_name item \<in> set (map s_name newCart) \<longrightarrow>
      (\<exists>k<length newCart. s_name (newCart ! k) = s_name item \<and>
         (\<forall>j<k. s_name (newCart ! j) \<noteq> s_name item) \<and>
         mergeLine item newCart =
           newCart[k := (newCart ! k)\<lparr>s_quantity := s_quantity (newCart ! k) + s_quantity item\<rparr>])) \<and>
   (s_name item \<notin> set (map s_name newCart) \<longrightarrow> mergeLine item newCart = newCart @ [item]) \<and>
   (i_name invItem \<in> set (map s_name prev) \<longrightarrow>
      addToCart invItem q prev =
        map (\<lambda>i. if s_name i = i_name invItem then i\<lparr>s_quantity := s_quantity i + q\<rparr> else i) prev) \<and>
   (i_name invItem \<notin> set (map s_name prev) \<longrightarrow>
      addToCart invItem q prev =
        prev @ [\<lparr>s_name = i_name invItem, s_quantity = q, s_price = Some (i_price invItem)\<rparr>]) \<and>
   (a \<noteq> b \<longrightarrow>
      mergeCart [\<lparr>s_name = a, s_quantity = 1, s_price = p3\<rparr>]
        (mergeCart [\<lparr>s_name = a, s_quantity = 2, s_price = p1\<rparr>,
                    \<lparr>s_name = b, s_quantity = 1, s_price = p2\<rparr>] [])
        = [\<lparr>s_name = a, s_quantity = 3, s_price = p1\<rparr>, \<lparr>s_name = b, s_quantity = 1, s_price = p2\<rparr>] \<and>
      mergeCart [\<lparr>s_name = a, s_quantity = 1, s_price = p3\<rparr>]
        [\<lparr>s_name = a, s_quantity = 2, s_price = p1\<rparr>, \<lparr>s_name = b, s_quantity = 1, s_price = p2\<rparr>]
        = [\<lparr>s_name = a, s_quantity = 3, s_price = p1\<rparr>, \<lparr>s_name = b, s_quantity = 1, s_price = p2\<rparr>]) \<and>
   cartQuantity n (mergeCart its newCart) = cartQuantity n newCart + cartQuantity n its \<and>
   handleAiAction env ''ADD_TO_CART'' data s =
     Inr (s\<lparr>cart := mergeCart (processCartItems env (inventory s) data) (cart s)\<rparr>) \<and>
   handleAiAction env ''UPDATE_CART'' data s =
     Inr (s\<lparr>cart := mergeCart (processCartItems env (inventory s) data) (cart s)\<rparr>)"
proof -
  have "handleAiAction env ''ADD_TO_CART'' data s =
     Inr (s\<lparr>cart := mergeCart (processCartItems env (inventory s) data) (cart s)\<rparr>)"
    and "handleAiAction env ''UPDATE_CART'' data s =
     Inr (s\<lparr>cart := mergeCart (processCartItems env (inventory s) data) (cart s)\<rparr>)"
    by (simp_all add: handleAiAction_def)
  then show ?thesis
    using mergeLine_existing [of item newCart] mergeLine_new [of item newCart]
      addToCart_existing [of invItem prev q] addToCart_new [of invItem prev q]
      mergeCart_example [of a b p3 p1 p2] mergeCart_quantity [of n its newCart]
    by blast
qed

text \<open>The example of the specification with the names A and B, a new name C, and Bread.\<close>

theorem cart_merge_witness:
  "mergeCart [\<lparr>s_name = ''A'', s_quantity = 1, s_price = None\<rparr>]
     (mergeCart [\<lparr>s_name = ''A'', s_quantity = 2, s_price = None\<rparr>,
                 \<lparr>s_name = ''B'', s_quantity = 1, s_price = None\<rparr>] [])
     = [\<lparr>s_name = ''A'', s_quantity = 3, s_price = None\<rparr>, \<lparr>s_name = ''B'', s_quantity = 1, s_price = None\<rparr>] \<and>
   mergeCart [\<lparr>s_name = ''A'', s_quantity = 1, s_price = None\<rparr>]
     [\<lparr>s_name = ''A'', s_quantity = 2, s_price = None\<rparr>, \<lparr>s_name = ''B'', s_quantity = 1, s_price = None\<rparr>]
     = [\<lparr>s_name = ''A'', s_quantity = 3, s_price = None\<rparr>, \<lparr>s_name = ''B'', s_quantity = 1, s_price = None\<rparr>] \<and>
   mergeLine \<lparr>s_name = ''C'', s_quantity = 4, s_price = Some 5\<rparr>
     [\<lparr>s_name = ''A'', s_quantity = 3, s_price = None\<rparr>]
     = [\<lparr>s_name = ''A'', s_quantity = 3, s_price = None\<rparr>, \<lparr>s_name = ''C'', s_quantity = 4, s_price = Some 5\<rparr>] \<and>
   addToCart (INITIAL_INVENTORY witnessEnv ! 6) 2 [\<lparr>s_name = ''Bread'', s_quantity = 1, s_price = Some 40\<rparr>]
     = [\<lparr>s_name = ''Bread'', s_quantity = 3, s_price = Some 40\<rparr>] \<and>
   addToCart (INITIAL_INVENTORY witnessEnv ! 6) 2 []
     = [\<lparr>s_name = ''Bread'', s_quantity = 2, s_price = Some 40\<rparr>]"
proof -
  have ab: "''A'' \<noteq> ''B''" by simp
  have b: "INITIAL_INVENTORY witnessEnv ! 6 = \<lparr>i_id = ''7'', i_name = ''Bread'', i_quantity = 5,
      i_unit = ''loaf'', i_price = 40, i_expiryDate = Some ''2024-01-01T00:00:00.000Z'',
      i_image = Some ''https://images.unsplash.com/photo-1509440159596-0249088772ff?w=300&q=80''\<rparr>"
    by (simp add: INITIAL_INVENTORY_def witnessEnv_def)
  note m = cart_merge [where a = "''A''" and b = "''B''" and ?p1.0 = None and ?p2.0 = None and ?p3.0 = None
      and item = "\<lparr>s_name = ''C'', s_quantity = 4, s_price = Some 5\<rparr>"
      and newCart = "[\<lparr>s_name = ''A'', s_quantity = 3, s_price = None\<rparr>]"
      and invItem = "INITIAL_INVENTORY witnessEnv ! 6" and q = 2
      and env = witnessEnv and data = None and s = witnessState]
  have c: "s_name \<lparr>s_name = ''C'', s_quantity = 4, s_price = Some 5\<rparr>
      \<notin> set (map s_name [\<lparr>s_name = ''A'', s_quantity = 3, s_price = None\<rparr>])" by simp
  have i1: "i_name (INITIAL_INVENTORY witnessEnv ! 6)
      \<in> set (map s_name [\<lparr>s_name = ''Bread'', s_quantity = 1, s_price = Some 40\<rparr>])"
    by (simp add: b)
  have i2: "i_name (INITIAL_INVENTORY witnessEnv ! 6) \<notin> set (map s_name [])" by simp
  from m [of "[\<lparr>s_name = ''Bread'', s_quantity = 1, s_price = Some 40\<rparr>]"] ab c i1
  have "mergeCart [\<lparr>s_name = ''A'', s_quantity = 1, s_price = None\<rparr>]
     (mergeCart [\<lparr>s_name = ''A'', s_quantity = 2, s_price = None\<rparr>,
                 \<lparr>s_name = ''B'', s_quantity = 1, s_price = None\<rparr>] [])
     = [\<lparr>s_name = ''A'', s_quantity = 3, s_price = None\<rparr>, \<lparr>s_name = ''B'', s_quantity = 1, s_price = None\<rparr>]"
    and "mergeCart [\<lparr>s_name = ''A'', s_quantity = 1, s_price = None\<rparr>]
     [\<lparr>s_name = ''A'', s_quantity = 2, s_price = None\<rparr>, \<lparr>s_name = ''B'', s_quantity = 1, s_price = None\<rparr>]
     = [\<lparr>s_name = ''A'', s_quantity = 3, s_price = None\<rparr>, \<lparr>s_name = ''B'', s_quantity = 1, s_price = None\<rparr>]"
    and "mergeLine \<lparr>s_name = ''C'', s_quantity = 4, s_price = Some 5\<rparr>
     [\<lparr>s_name = ''A'', s_quantity = 3, s_price = None\<rparr>]
     = [\<lparr>s_name = ''A'', s_quantity = 3, s_price = None\<rparr>] @ [\<lparr>s_name = ''C'', s_quantity = 4, s_price = Some 5\<rparr>]"
    and "addToCart (INITIAL_INVENTORY witnessEnv ! 6) 2 [\<lparr>s_name = ''Bread'', s_quantity = 1, s_price = Some 40\<rparr>]
     = map (\<lambda>i. if s_name i = i_name (INITIAL_INVENTORY witnessEnv ! 6)
                 then i\<lparr>s_quantity := s_quantity i + 2\<rparr> else i)
         [\<lparr>s_name = ''Bread'', s_quantity = 1, s_price = Some 40\<rparr>]"
    by blast+
  moreover from m [of "[]"] i2
  have "addToCart (INITIAL_INVENTORY witnessEnv ! 6) 2 []
     = [] @ [\<lparr>s_name = i_name (INITIAL_INVENTORY witnessEnv ! 6), s_quantity = 2,
              s_price = Some (i_price (INITIAL_INVENTORY witnessEnv ! 6))\<rparr>]"
    by blast
  ultimately show ?thesis by (simp add: b)
qed

section \<open>Name resolution, path by path\<close>

lemma processCartItems_line:
  "processCartItems env catalog
      (Some \<lparr>d_items = Some [\<lparr>p_name = q, p_quantity = n, p_changeType = ct, p_price = pp\<rparr>]\<rparr>) =
     [\<lparr>s_name = q, s_quantity = n,
       s_price = Some (case findIndex (matchesName env q) catalog of
                         Some k \<Rightarrow> jsOr (Some (i_price (catalog ! k))) (jsOr pp 0)
                       | None \<Rightarrow> jsOr pp 0)\<rparr>]"
  by (cases "findIndex (matchesName env q) catalog")
     (simp_all add: processCartItems_def find_findIndex jsOr_def)

lemma processCartItems_lines:
  "processCartItems env catalog (Some \<lparr>d_items = Some its\<rparr>) =
     concat (map (\<lambda>item. processCartItems env catalog (Some \<lparr>d_items = Some [item]\<rparr>)) its)"
  by (induction its) (simp_all add: processCartItems_def)

text \<open>
  Claim C5, as the code has it. Names are compared after \<open>toLowerCase\<close>. The inventory
  update resolves a name to the first item, in inventory order, whose lower-cased name
  contains the lower-cased query or is contained in it, changes the quantity of that item,
  and takes the name as unresolved when there is none. The sale recorder and the cart's
  price lookup resolve a name to the first item whose lower-cased name contains the
  lower-cased query, and to nothing when an item's name is only a part of the query: the
  sale recorder decrements exactly the item found and leaves the inventory alone when none
  is; the cart prices each payload line on its own, at the price of the item found unless
  that is 0, and at the line's own price or 0 otherwise.
\<close>

theorem resolver_semantics:
  "(findIndex (matchesEither env q) catalog = Some k \<longleftrightarrow>
      k < length catalog \<and>
      ((\<exists>p r. toLowerCase env (i_name (catalog ! k)) = p @ toLowerCase env q @ r) \<or>
       (\<exists>p r. toLowerCase env q = p @ toLowerCase env (i_name (catalog ! k)) @ r)) \<and>
      (\<forall>j<k. \<not> ((\<exists>p r. toLowerCase env (i_name (catalog ! j)) = p @ toLowerCase env q @ r) \<or>
                  (\<exists>p r. toLowerCase env q = p @ toLowerCase env (i_name (catalog ! j)) @ r)))) \<and>
   (findIndex (matchesName env q) catalog = Some k \<longleftrightarrow>
      k < length catalog \<and>
      (\<exists>p r. toLowerCase env (i_name (catalog ! k)) = p @ toLowerCase env q @ r) \<and>
      (\<forall>j<k. \<not> (\<exists>p r. toLowerCase env (i_name (catalog ! j)) = p @ toLowerCase env q @ r))) \<and>
   (find (matchesName env q) catalog = Some x \<longleftrightarrow>
      (\<exists>k. findIndex (matchesName env q) catalog = Some k \<and> x = catalog ! k)) \<and>
   (findIndex (matchesEither env q) catalog = Some k \<longrightarrow>
      fst (applyChange env newId
             \<lparr>p_name = q, p_quantity = n, p_changeType = ct, p_price = pp\<rparr> catalog) =
        catalog[k := (catalog ! k)\<lparr>i_quantity :=
          (if ct = Some ''subtract'' then max 0 (i_quantity (catalog ! k) - n)
           else if ct = Some ''set'' then n
           else i_quantity (catalog ! k) + n)\<rparr>]) \<and>
   (findIndex (matchesEither env q) catalog = None \<longrightarrow>
      fst (applyChange env newId
             \<lparr>p_name = q, p_quantity = n, p_changeType = ct, p_price = pp\<rparr> catalog) =
        (if ct \<noteq> Some ''subtract'' then
           catalog @
             [\<lparr>i_id = newId, i_name = q, i_quantity = n, i_unit = ''unit'', i_price = jsOr pp 0,
               i_expiryDate = Some (daysAgo env (-180)),
               i_image = Some ''https://images.unsplash.com/photo-1576618148400-f54bed99fcf8?w=300&q=80''\<rparr>]
         else catalog)) \<and>
   (findIndex (matchesName env q) catalog = Some k \<longrightarrow>
      fst (snd (sellStep env \<lparr>s_name = q, s_quantity = n, s_price = pr\<rparr> catalog t)) =
        catalog[k := (catalog ! k)\<lparr>i_quantity := max 0 (i_quantity (catalog ! k) - n)\<rparr>]) \<and>
   (findIndex (matchesName env q) catalog = None \<longrightarrow>
      sellStep env \<lparr>s_name = q, s_quantity = n, s_price = pr\<rparr> catalog t =
        (\<lparr>s_name = q, s_quantity = n, s_price = pr\<rparr>, catalog, t)) \<and>
   (findIndex (matchesName env q) catalog = Some k \<longrightarrow>
      processCartItems env catalog
          (Some \<lparr>d_items = Some [\<lparr>p_name = q, p_quantity = n, p_changeType = ct, p_price = pp\<rparr>]\<rparr>) =
        [\<lparr>s_name = q, s_quantity = n,
          s_price = Some (jsOr (Some (i_price (catalog ! k))) (jsOr pp 0))\<rparr>]) \<and>
   (findIndex (matchesName env q) catalog = None \<longrightarrow>
      processCartItems env catalog
          (Some \<lparr>d_items = Some [\<lparr>p_name = q, p_quantity = n, p_changeType = ct, p_price = pp\<rparr>]\<rparr>) =
        [\<lparr>s_name = q, s_quantity = n, s_price = Some (jsOr pp 0)\<rparr>]) \<and>
   processCartItems env catalog (Some \<lparr>d_items = Some its\<rparr>) =
     concat (map (\<lambda>item. processCartItems env catalog (Some \<lparr>d_items = Some [item]\<rparr>)) its)"
proof -
  let ?l = "\<lparr>p_name = q, p_quantity = n, p_changeType = ct, p_price = pp\<rparr>"
  have a: "findIndex (matchesName env q) catalog = Some k \<Longrightarrow>
      fst (snd (sellStep env \<lparr>s_name = q, s_quantity = n, s_price = pr\<rparr> catalog t)) =
        catalog[k := (catalog ! k)\<lparr>i_quantity := max 0 (i_quantity (catalog ! k) - n)\<rparr>]"
    using sellStep_resolved [of env "\<lparr>s_name = q, s_quantity = n, s_price = pr\<rparr>" catalog k t] by simp
  have b: "findIndex (matchesName env q) catalog = None \<Longrightarrow>
      sellStep env \<lparr>s_name = q, s_quantity = n, s_price = pr\<rparr> catalog t =
        (\<lparr>s_name = q, s_quantity = n, s_price = pr\<rparr>, catalog, t)"
    using sellStep_unresolved [of env "\<lparr>s_name = q, s_quantity = n, s_price = pr\<rparr>" catalog t] by simp
  have c: "findIndex (matchesEither env q) catalog = Some k \<Longrightarrow>
      fst (applyChange env newId ?l catalog) =
        catalog[k := (catalog ! k)\<lparr>i_quantity :=
          (if ct = Some ''subtract'' then max 0 (i_quantity (catalog ! k) - n)
           else if ct = Some ''set'' then n
           else i_quantity (catalog ! k) + n)\<rparr>]"
    using applyChange_found [of env ?l catalog k newId] by simp
  have d: "findIndex (matchesEither env q) catalog = None \<Longrightarrow>
      fst (applyChange env newId ?l catalog) =
        (if ct \<noteq> Some ''subtract'' then
           catalog @
             [\<lparr>i_id = newId, i_name = q, i_quantity = n, i_unit = ''unit'', i_price = jsOr pp 0,
               i_expiryDate = Some (daysAgo env (-180)),
               i_image = Some ''https://images.unsplash.com/photo-1576618148400-f54bed99fcf8?w=300&q=80''\<rparr>]
         else catalog)"
    using applyChange_missing [of env ?l catalog newId] by simp
  have e: "findIndex (matchesName env q) catalog = Some k \<Longrightarrow>
      processCartItems env catalog (Some \<lparr>d_items = Some [?l]\<rparr>) =
        [\<lparr>s_name = q, s_quantity = n,
          s_price = Some (jsOr (Some (i_price (catalog ! k))) (jsOr pp 0))\<rparr>]"
    by (simp add: processCartItems_line)
  have f: "findIndex (matchesName env q) catalog = None \<Longrightarrow>
      processCartItems env catalog (Some \<lparr>d_items = Some [?l]\<rparr>) =
        [\<lparr>s_name = q, s_quantity = n, s_price = Some (jsOr pp 0)\<rparr>]"
    by (simp add: processCartItems_line)
  have g: "(findIndex (matchesEither env q) catalog = Some k \<longleftrightarrow>
      k < length catalog \<and>
      ((\<exists>p r. toLowerCase env (i_name (catalog ! k)) = p @ toLowerCase env q @ r) \<or>
       (\<exists>p r. toLowerCase env q = p @ toLowerCase env (i_name (catalog ! k)) @ r)) \<and>
      (\<forall>j<k. \<not> ((\<exists>p r. toLowerCase env (i_name (catalog ! j)) = p @ toLowerCase env q @ r) \<or>
                  (\<exists>p r. toLowerCase env q = p @ toLowerCase env (i_name (catalog ! j)) @ r)))) \<and>
   (findIndex (matchesName env q) catalog = Some k \<longleftrightarrow>
      k < length catalog \<and>
      (\<exists>p r. toLowerCase env (i_name (catalog ! k)) = p @ toLowerCase env q @ r) \<and>
      (\<forall>j<k. \<not> (\<exists>p r. toLowerCase env (i_name (catalog ! j)) = p @ toLowerCase env q @ r))) \<and>
   (find (matchesName env q) catalog = Some x \<longleftrightarrow>
      (\<exists>k. findIndex (matchesName env q) catalog = Some k \<and> x = catalog ! k))"
    by (simp add: findIndex_Some_iff matchesEither_iff matchesName_iff find_Some_findIndex)
  from g a b c d e f processCartItems_lines [of env catalog its]
  show ?thesis by (intro conjI impI) (simp_all only: simp_thms)
qed

text \<open>
  On the initial inventory \<open>milk\<close> resolves to Amul Milk (index 5) and \<open>noodles\<close> to
  Maggi Noodles (index 1) on every path: adding 2 milk takes Amul Milk from 5 to 7,
  selling 2 milk takes it from 5 to 3, and a milk line in the cart is priced at 28.
\<close>

theorem resolver_semantics_witness:
  "findIndex (matchesEither witnessEnv ''milk'') (INITIAL_INVENTORY witnessEnv) = Some 5 \<and>
   findIndex (matchesName witnessEnv ''milk'') (INITIAL_INVENTORY witnessEnv) = Some 5 \<and>
   map_option i_name (find (matchesName witnessEnv ''milk'') (INITIAL_INVENTORY witnessEnv))
     = Some ''Amul Milk'' \<and>
   findIndex (matchesEither witnessEnv ''noodles'') (INITIAL_INVENTORY witnessEnv) = Some 1 \<and>
   findIndex (matchesName witnessEnv ''noodles'') (INITIAL_INVENTORY witnessEnv) = Some 1 \<and>
   map_option i_name (find (matchesName witnessEnv ''noodles'') (INITIAL_INVENTORY witnessEnv))
     = Some ''Maggi Noodles'' \<and>
   map i_quantity (fst (applyChange witnessEnv ''n1''
      \<lparr>p_name = ''milk'', p_quantity = 2, p_changeType = None, p_price = None\<rparr>
      (INITIAL_INVENTORY witnessEnv))) = [45, 8, 20, 4, 30, 7, 5] \<and>
   map i_quantity (fst (snd (sellStep witnessEnv
      \<lparr>s_name = ''milk'', s_quantity = 2, s_price = None\<rparr>
      (INITIAL_INVENTORY witnessEnv) 0))) = [45, 8, 20, 4, 30, 3, 5] \<and>
   processCartItems witnessEnv (INITIAL_INVENTORY witnessEnv)
      (Some \<lparr>d_items = Some [\<lparr>p_name = ''milk'', p_quantity = 2, p_changeType = None,
         p_price = None\<rparr>]\<rparr>)
     = [\<lparr>s_name = ''milk'', s_quantity = 2, s_price = Some 28\<rparr>]"
proof -
  let ?c = "INITIAL_INVENTORY witnessEnv"
  have m1: "findIndex (matchesEither witnessEnv ''milk'') ?c = Some 5"
    and m2: "findIndex (matchesName witnessEnv ''milk'') ?c = Some 5"
    and n1: "findIndex (matchesEither witnessEnv ''noodles'') ?c = Some 1"
    and n2: "findIndex (matchesName witnessEnv ''noodles'') ?c = Some 1"
    by code_simp+
  have i5: "i_name (?c ! 5) = ''Amul Milk''" and i1: "i_name (?c ! 1) = ''Maggi Noodles''"
    and p5: "i_price (?c ! 5) = 28"
    by (simp_all add: INITIAL_INVENTORY_def)
  have q: "map i_quantity (?c[5 := (?c ! 5)\<lparr>i_quantity := max 0 (i_quantity (?c ! 5) - 2)\<rparr>])
      = [45, 8, 20, 4, 30, 3, 5]"
    and q2: "map i_quantity (?c[5 := (?c ! 5)\<lparr>i_quantity := i_quantity (?c ! 5) + 2\<rparr>])
      = [45, 8, 20, 4, 30, 7, 5]"
    by (simp_all add: INITIAL_INVENTORY_def)
  note r = resolver_semantics [where env = witnessEnv and catalog = ?c and n = 2 and ct = None
      and pp = None and pr = None and t = 0 and newId = "''n1''" and its = "[]"]
  from r [of "''milk''" 5 "?c ! 5"] m1 m2
  have f1: "find (matchesName witnessEnv ''milk'') ?c = Some (?c ! 5)"
    and a1: "fst (applyChange witnessEnv ''n1''
        \<lparr>p_name = ''milk'', p_quantity = 2, p_changeType = None, p_price = None\<rparr> ?c) =
        ?c[5 := (?c ! 5)\<lparr>i_quantity := i_quantity (?c ! 5) + 2\<rparr>]"
    and s1: "fst (snd (sellStep witnessEnv \<lparr>s_name = ''milk'', s_quantity = 2, s_price = None\<rparr> ?c 0)) =
        ?c[5 := (?c ! 5)\<lparr>i_quantity := max 0 (i_quantity (?c ! 5) - 2)\<rparr>]"
    and c1: "processCartItems witnessEnv ?c
          (Some \<lparr>d_items = Some [\<lparr>p_name = ''milk'', p_quantity = 2, p_changeType = None,
             p_price = None\<rparr>]\<rparr>) =
        [\<lparr>s_name = ''milk'', s_quantity = 2,
          s_price = Some (jsOr (Some (i_price (?c ! 5))) (jsOr None 0))\<rparr>]"
    by simp_all
  from r [of "''noodles''" 1 "?c ! 1"] n2
  have f2: "find (matchesName witnessEnv ''noodles'') ?c = Some (?c ! 1)"
    by blast
  have j: "jsOr (Some (i_price (?c ! 5))) (jsOr None 0) = 28"
    by (simp add: p5 jsOr_def)
  show ?thesis
    by (simp only: m1 m2 n1 n2 f1 f2 a1 s1 c1 q q2 i5 i1 j option.map simp_thms)
qed

text \<open>
  The claim as worded fails on the sale and cart paths: \<open>Amul Milk 500ml\<close> contains the
  name Amul Milk, so the inventory update resolves it, but the sale recorder finds no item
  and decrements nothing, and the cart prices the line at 0.
\<close>

theorem resolver_counterexample:
  "findIndex (matchesEither witnessEnv ''Amul Milk 500ml'') (inventory witnessState) = Some 5 \<and>
   findIndex (matchesName witnessEnv ''Amul Milk 500ml'') (inventory witnessState) = None \<and>
   inventory (updateInventoryAndRecordSale witnessEnv
      [\<lparr>s_name = ''Amul Milk 500ml'', s_quantity = 1, s_price = None\<rparr>] witnessState)
     = inventory witnessState \<and>
   processCartItems witnessEnv (inventory witnessState)
      (Some \<lparr>d_items = Some [\<lparr>p_name = ''Amul Milk 500ml'', p_quantity = 1,
         p_changeType = None, p_price = None\<rparr>]\<rparr>)
     = [\<lparr>s_name = ''Amul Milk 500ml'', s_quantity = 1, s_price = Some 0\<rparr>]"
  by code_simp

end
